theory Spec2Isabelle
  imports Complex_Main "HOL-Library.Word"
begin

unbundle bit_operations_syntax

section \<open>IEEE single precision values\<close>

text \<open>
  The C++ type \<open>float\<close>. A finite value is a sign, a significand and a binary exponent,
  standing for \<open>(-1)^s * m * 2^e\<close>; it is a binary32 value when \<open>m < 2^24\<close> and
  \<open>-149 \<le> e \<le> 104\<close>. Both zeros, both infinities and NaN are values of the type.
\<close>

datatype float = Finite bool nat int | Infinity bool | NaN

fun is_binary32 :: "float \<Rightarrow> bool" where
  "is_binary32 (Finite s m e) = (m < 2 ^ 24 \<and> -149 \<le> e \<and> e \<le> 104)"
| "is_binary32 (Infinity s) = True"
| "is_binary32 NaN = True"

definition magnitude :: "nat \<Rightarrow> int \<Rightarrow> rat" where
  "magnitude m e = of_nat m * 2 powi e"

fun float_val :: "float \<Rightarrow> rat option" where
  "float_val (Finite s m e) = Some ((if s then -1 else 1) * magnitude m e)"
| "float_val (Infinity s) = None"
| "float_val NaN = None"

text \<open>The comparison operators: every comparison with NaN is false.\<close>

fun float_lt :: "float \<Rightarrow> float \<Rightarrow> bool" where
  "float_lt NaN b = False"
| "float_lt a NaN = False"
| "float_lt (Infinity s) (Infinity t) = (s \<and> \<not> t)"
| "float_lt (Infinity s) (Finite t m e) = s"
| "float_lt (Finite s m e) (Infinity t) = (\<not> t)"
| "float_lt (Finite s m e) (Finite t n f) =
     ((if s then -1 else 1) * magnitude m e < (if t then -1 else 1) * magnitude n f)"

fun float_le :: "float \<Rightarrow> float \<Rightarrow> bool" where
  "float_le NaN b = False"
| "float_le a NaN = False"
| "float_le (Infinity s) (Infinity t) = (s \<or> \<not> t)"
| "float_le (Infinity s) (Finite t m e) = s"
| "float_le (Finite s m e) (Infinity t) = (\<not> t)"
| "float_le (Finite s m e) (Finite t n f) =
     ((if s then -1 else 1) * magnitude m e \<le> (if t then -1 else 1) * magnitude n f)"

definition float_gt :: "float \<Rightarrow> float \<Rightarrow> bool" where
  "float_gt a b = float_lt b a"

definition float_ge :: "float \<Rightarrow> float \<Rightarrow> bool" where
  "float_ge a b = float_le b a"

text \<open>
  Rounding an exact value \<open>(-1)^s * m * 2^e\<close> to binary32, to nearest with ties to even:
  drop the \<open>k\<close> low bits that do not fit 24 bits of significand or lie below \<open>2^-149\<close>,
  round the quotient on the dropped part, and overflow to infinity from \<open>2^128\<close> on.
\<close>

fun bitlen :: "nat \<Rightarrow> nat" where
  "bitlen n = (if n = 0 then 0 else Suc (bitlen (n div 2)))"

declare bitlen.simps [simp del]

definition normalise :: "bool \<Rightarrow> nat \<Rightarrow> int \<Rightarrow> float" where
  "normalise s m e =
     (if 2 ^ 128 \<le> magnitude m e then Infinity s
      else if 104 < e then Finite s (m * 2 ^ nat (e - 104)) 104
      else if m = 2 ^ 24 then Finite s (2 ^ 23) (e + 1)
      else Finite s m e)"

definition round_float :: "bool \<Rightarrow> nat \<Rightarrow> int \<Rightarrow> float" where
  "round_float s m e =
     (if m = 0 then Finite s 0 0
      else let k = nat (max 0 (max (int (bitlen m) - 24) (-149 - e)));
               q = m div 2 ^ k;
               r = m mod 2 ^ k;
               m' = (if 2 ^ k < 2 * r \<or> (2 * r = 2 ^ k \<and> odd q) then q + 1 else q)
           in normalise s m' (e + int k))"

text \<open>The product of two floats: the exact product, rounded.\<close>

fun float_mul :: "float \<Rightarrow> float \<Rightarrow> float" where
  "float_mul NaN b = NaN"
| "float_mul a NaN = NaN"
| "float_mul (Infinity s) (Infinity t) = Infinity (s \<noteq> t)"
| "float_mul (Infinity s) (Finite t m e) = (if m = 0 then NaN else Infinity (s \<noteq> t))"
| "float_mul (Finite s m e) (Infinity t) = (if m = 0 then NaN else Infinity (s \<noteq> t))"
| "float_mul (Finite s m e) (Finite t n f) = round_float (s \<noteq> t) (m * n) (e + f)"

text \<open>The conversion of an \<open>int32_t\<close> operand to \<open>float\<close> (to nearest).\<close>

definition float_of_int32 :: "32 word \<Rightarrow> float" where
  "float_of_int32 w = round_float (sint w < 0) (nat \<bar>sint w\<bar>) 0"

text \<open>
  The conversion of a \<open>float\<close> to \<open>int32_t\<close> truncates towards zero. C++ leaves it
  undefined when the truncated value does not fit, and for infinities and NaN: \<open>None\<close>.
\<close>

definition round_to_zero :: "rat \<Rightarrow> int" where
  "round_to_zero v = (if v < 0 then - \<lfloor>- v\<rfloor> else \<lfloor>v\<rfloor>)"

fun float_to_int32 :: "float \<Rightarrow> 32 word option" where
  "float_to_int32 (Finite s m e) =
     (let t = round_to_zero ((if s then -1 else 1) * magnitude m e)
      in if - (2 ^ 31) \<le> t \<and> t < 2 ^ 31 then Some (word_of_int t) else None)"
| "float_to_int32 (Infinity s) = None"
| "float_to_int32 NaN = None"

text \<open>
  \<open>fabs\<close>, \<open>ceilf\<close> and \<open>copysignf\<close> of the C library. The sign of a NaN is not part
  of the model: \<open>copysignf\<close> keeps the sign of its first operand when the second is NaN.
\<close>

fun fabs :: "float \<Rightarrow> float" where
  "fabs (Finite s m e) = Finite False m e"
| "fabs (Infinity s) = Infinity False"
| "fabs NaN = NaN"

fun ceilf :: "float \<Rightarrow> float" where
  "ceilf (Finite s m e) =
     (if 0 \<le> e then Finite s m e
      else Finite s (nat \<bar>\<lceil>(if s then -1 else 1) * magnitude m e\<rceil>\<bar>) 0)"
| "ceilf (Infinity s) = Infinity s"
| "ceilf NaN = NaN"

fun sign_bit :: "float \<Rightarrow> bool option" where
  "sign_bit (Finite s m e) = Some s"
| "sign_bit (Infinity s) = Some s"
| "sign_bit NaN = None"

fun copysignf :: "float \<Rightarrow> float \<Rightarrow> float" where
  "copysignf NaN b = NaN"
| "copysignf (Finite s m e) b = (case sign_bit b of Some t \<Rightarrow> Finite t m e | None \<Rightarrow> Finite s m e)"
| "copysignf (Infinity s) b = (case sign_bit b of Some t \<Rightarrow> Infinity t | None \<Rightarrow> Infinity s)"


section \<open>The Device Injector\<close>

text \<open>
  The injector is an external collaborator (\<open>EvdevInjector\<close>); the manager only calls
  it. Its model is the log of the calls made on it, oldest first. The codes of
  \<open>linux/input.h\<close> are kept symbolic.
\<close>

datatype key_code = BTN_TOUCH | BTN_BACK

datatype key_action = KEY_RELEASE | KEY_PRESS

datatype rel_code = REL_HWHEEL | REL_WHEEL

datatype bus_type = BUS_VIRTUAL

datatype input_prop = INPUT_PROP_DIRECT

datatype call =
    Close
  | ConfigureBegin string bus_type "16 word" "16 word" "16 word"
  | ConfigureInputProperty input_prop
  | ConfigureMultiTouchXY "32 word" "32 word" "32 word" "32 word"
  | ConfigureAbsSlots "32 word"
  | ConfigureKey key_code
  | ConfigureEnd
  | ResetError
  | SendMultiTouchXY "32 word" "32 word" "32 word" "32 word"
  | SendKey key_code key_action
  | SendMultiTouchLift "32 word"
  | SendRel rel_code "32 word"
  | SendSynReport

record EvdevInjector =
  calls :: "call list"

definition new_EvdevInjector :: EvdevInjector where
  "new_EvdevInjector = \<lparr>calls = []\<rparr>"

definition invoke :: "call \<Rightarrow> EvdevInjector \<Rightarrow> EvdevInjector" where
  "invoke c dev = dev\<lparr>calls := calls dev @ [c]\<rparr>"

text \<open>
  What an operation returns: one of the three codes the manager itself produces, or
  \<open>Code n\<close> for the literal \<open>0\<close> (\<open>OK\<close>) and for what the injector's \<open>GetError\<close>
  reports. \<open>GetError\<close> is a query of the external injector: every operation takes it as
  the parameter \<open>GetError\<close>, a function of the injector's state.
\<close>

datatype status = Code int | EINVAL | ENOTSUP | ERROR_SEQUENCING

section \<open>The touchpad slots\<close>

text \<open>
  \<open>struct Touchpad\<close>, as the member functions use it: \<open>injector\<close> is the pointer to the
  slot's injector (\<open>None\<close> is \<open>nullptr\<close>), \<open>owned_injector\<close> says whether the
  \<open>unique_ptr\<close> holds it. The array \<open>touchpad_\<close> is a list, whose length is
  \<open>kTouchpads\<close>.
\<close>

record Touchpad =
  owned_injector :: bool
  injector :: "EvdevInjector option"
  last_device_x :: "32 word"
  last_device_y :: "32 word"
  touches :: "32 word"
  last_motion_event_buttons :: "32 word"

definition kDeviceNameFormat :: string where
  "kDeviceNameFormat = ''vr-virtual-touchpad-''"

definition kDeviceBusType :: bus_type where
  "kDeviceBusType = BUS_VIRTUAL"

definition kDeviceVendor :: "16 word" where
  "kDeviceVendor = 0"

definition kDeviceProduct :: "16 word" where
  "kDeviceProduct = 0"

definition kDeviceVersion :: "16 word" where
  "kDeviceVersion = 0x0001"

definition kWidth :: "32 word" where
  "kWidth = 0x10000"

definition kHeight :: "32 word" where
  "kHeight = 0x10000"

definition kSlots :: "32 word" where
  "kSlots = 2"

definition INT32_MIN :: "32 word" where
  "INT32_MIN = 0x80000000"

text \<open>\<open>AMOTION_EVENT_BUTTON_BACK\<close> of \<open>android/input.h\<close>: \<open>1 << 3\<close>.\<close>

definition AMOTION_EVENT_BUTTON_BACK :: "32 word" where
  "AMOTION_EVENT_BUTTON_BACK = push_bit 3 1"

subsection \<open>printf conversions\<close>

definition digit_char :: "nat \<Rightarrow> char" where
  "digit_char d = ''0123456789ABCDEF'' ! d"

fun digits :: "nat \<Rightarrow> nat \<Rightarrow> string" where
  "digits b n = (if b < 2 \<or> n < b then [digit_char n] else digits b (n div b) @ [digit_char (n mod b)])"

declare digits.simps [simp del]

text \<open>\<open>%d\<close> and \<open>PRId32\<close> print a signed decimal, \<open>PRIX32\<close> an unsigned hexadecimal.\<close>

definition format_d :: "int \<Rightarrow> string" where
  "format_d i = (if i < 0 then ''-'' @ digits 10 (nat (- i)) else digits 10 (nat i))"

definition format_X :: "32 word \<Rightarrow> string" where
  "format_X w = digits 16 (unat w)"

subsection \<open>Lifecycle\<close>

text \<open>
  \<open>Reset\<close>: an attached injector gets \<open>Close\<close> and is let go of, so the call is on an
  object the new state no longer holds; every field of every slot is set.
\<close>

definition Reset_touchpad :: "Touchpad \<Rightarrow> Touchpad" where
  "Reset_touchpad touchpad =
     touchpad\<lparr>injector := None, owned_injector := False,
              last_device_x := INT32_MIN, last_device_y := INT32_MIN,
              touches := 0, last_motion_event_buttons := 0\<rparr>"

definition Reset :: "Touchpad list \<Rightarrow> Touchpad list" where
  "Reset touchpads = map Reset_touchpad touchpads"

text \<open>The injectors that \<open>Reset\<close> lets go of, as it leaves them.\<close>

definition Reset_closed :: "Touchpad list \<Rightarrow> EvdevInjector list" where
  "Reset_closed touchpads = map (invoke Close) (List.map_filter injector touchpads)"

text \<open>
  \<open>Create\<close> builds the manager and calls \<open>Reset\<close>. A new slot has no injector; \<open>Reset\<close>
  overwrites its other fields, whatever they were.
\<close>

definition new_Touchpad :: Touchpad where
  "new_Touchpad = \<lparr>owned_injector = False, injector = None, last_device_x = 0,
                   last_device_y = 0, touches = 0, last_motion_event_buttons = 0\<rparr>"

definition Create :: "nat \<Rightarrow> Touchpad list" where
  "Create kTouchpads = Reset (replicate kTouchpads new_Touchpad)"

definition configure :: "nat \<Rightarrow> EvdevInjector \<Rightarrow> EvdevInjector" where
  "configure i dev =
     invoke ConfigureEnd
      (invoke (ConfigureKey BTN_BACK)
        (invoke (ConfigureKey BTN_TOUCH)
          (invoke (ConfigureAbsSlots kSlots)
            (invoke (ConfigureMultiTouchXY 0 0 (kWidth - 1) (kHeight - 1))
              (invoke (ConfigureInputProperty INPUT_PROP_DIRECT)
                (invoke (ConfigureBegin (kDeviceNameFormat @ format_d (int i)) kDeviceBusType
                           kDeviceVendor kDeviceProduct kDeviceVersion) dev))))))"

definition Attach_touchpad :: "nat \<Rightarrow> Touchpad \<Rightarrow> Touchpad" where
  "Attach_touchpad i touchpad =
     (let touchpad1 = (case injector touchpad of
                         None \<Rightarrow> touchpad\<lparr>owned_injector := True, injector := Some new_EvdevInjector\<rparr>
                       | Some dev \<Rightarrow> touchpad)
      in touchpad1\<lparr>injector := map_option (configure i) (injector touchpad1)\<rparr>)"

fun Attach_loop :: "(EvdevInjector \<Rightarrow> int) \<Rightarrow> nat \<Rightarrow> int \<Rightarrow> Touchpad list \<Rightarrow> int \<times> Touchpad list" where
  "Attach_loop GetError i status [] = (status, [])"
| "Attach_loop GetError i status (touchpad # rest) =
     (let touchpad' = Attach_touchpad i touchpad;
          configuration_status = (case injector touchpad' of Some dev \<Rightarrow> GetError dev | None \<Rightarrow> 0);
          status' = (if configuration_status \<noteq> 0 then configuration_status else status);
          (final, rest') = Attach_loop GetError (Suc i) status' rest
      in (final, touchpad' # rest'))"

definition Attach :: "(EvdevInjector \<Rightarrow> int) \<Rightarrow> Touchpad list \<Rightarrow> status \<times> Touchpad list" where
  "Attach GetError touchpads = (case Attach_loop GetError 0 0 touchpads of (st, t) \<Rightarrow> (Code st, t))"

definition Detach :: "Touchpad list \<Rightarrow> status \<times> Touchpad list" where
  "Detach touchpads = (Code 0, Reset touchpads)"


subsection \<open>Touch\<close>

text \<open>
  The \<open>switch\<close> on the contact history, on the injector whose error was reset. It has
  four cases and no default.
\<close>

definition Touch_switch :: "Touchpad \<Rightarrow> 32 word \<Rightarrow> 32 word \<Rightarrow> EvdevInjector \<Rightarrow> EvdevInjector" where
  "Touch_switch touchpad device_x device_y dev =
     (if touches touchpad = 0 then
        (if device_x \<noteq> last_device_x touchpad \<or> device_y \<noteq> last_device_y touchpad
         then invoke SendSynReport (invoke (SendMultiTouchXY 0 0 device_x device_y) dev)
         else dev)
      else if touches touchpad = 1 then
        invoke SendSynReport
          (invoke (SendKey BTN_TOUCH KEY_PRESS)
            (invoke (SendMultiTouchXY 0 0 device_x device_y) dev))
      else if touches touchpad = 2 then
        invoke SendSynReport
          (invoke (SendMultiTouchLift 0)
            (invoke (SendKey BTN_TOUCH KEY_RELEASE) dev))
      else if touches touchpad = 3 then
        (if device_x \<noteq> last_device_x touchpad \<or> device_y \<noteq> last_device_y touchpad
         then invoke SendSynReport (invoke (SendMultiTouchXY 0 0 device_x device_y) dev)
         else dev)
      else dev)"

text \<open>
  \<open>Touch\<close> returns \<open>None\<close> where the C++ has no defined behaviour: a NaN coordinate
  passes both range tests and reaches the conversion to \<open>int32_t\<close>.
\<close>

definition Touch ::
  "(EvdevInjector \<Rightarrow> int) \<Rightarrow> Touchpad list \<Rightarrow> int \<Rightarrow> float \<Rightarrow> float \<Rightarrow> float
     \<Rightarrow> (status \<times> Touchpad list) option" where
  "Touch GetError touchpads touchpad_id x y pressure =
     (if touchpad_id < 0 \<or> int (length touchpads) \<le> touchpad_id then Some (EINVAL, touchpads)
      else if float_lt x (Finite False 0 0) \<or> float_ge x (Finite False 1 0)
              \<or> float_lt y (Finite False 0 0) \<or> float_ge y (Finite False 1 0)
      then Some (EINVAL, touchpads)
      else
        case float_to_int32 (float_mul x (float_of_int32 kWidth)) of
          None \<Rightarrow> None
        | Some device_x \<Rightarrow>
        (case float_to_int32 (float_mul y (float_of_int32 kHeight)) of
          None \<Rightarrow> None
        | Some device_y \<Rightarrow>
          (let touchpad = touchpads ! nat touchpad_id;
               touchpad1 = touchpad\<lparr>touches :=
                  push_bit 1 (touches touchpad AND 1)
                    OR (if float_gt pressure (float_of_int32 0) then 1 else 0)\<rparr>
           in (case injector touchpad1 of
                None \<Rightarrow> Some (ERROR_SEQUENCING, touchpads[nat touchpad_id := touchpad1])
              | Some dev \<Rightarrow>
                 (let dev1 = Touch_switch touchpad1 device_x device_y (invoke ResetError dev);
                      touchpad2 = touchpad1\<lparr>injector := Some dev1,
                                    last_device_x := device_x, last_device_y := device_y\<rparr>
                  in Some (Code (GetError dev1), touchpads[nat touchpad_id := touchpad2]))))))"

subsection \<open>ButtonState\<close>

definition ButtonState ::
  "(EvdevInjector \<Rightarrow> int) \<Rightarrow> Touchpad list \<Rightarrow> int \<Rightarrow> 32 word \<Rightarrow> status \<times> Touchpad list" where
  "ButtonState GetError touchpads touchpad_id buttons =
     (if touchpad_id < 0 \<or> int (length touchpads) \<le> touchpad_id then (EINVAL, touchpads)
      else
        (let touchpad = touchpads ! nat touchpad_id;
             changes = last_motion_event_buttons touchpad XOR buttons
         in if changes = 0 then (Code 0, touchpads)
            else if buttons AND NOT AMOTION_EVENT_BUTTON_BACK \<noteq> 0 then (ENOTSUP, touchpads)
            else (case injector touchpad of
                   None \<Rightarrow> (ERROR_SEQUENCING, touchpads)
                 | Some dev \<Rightarrow>
                    (let dev1 = invoke ResetError dev;
                         dev2 = (if changes AND AMOTION_EVENT_BUTTON_BACK \<noteq> 0
                                 then invoke SendSynReport
                                        (invoke (SendKey BTN_BACK
                                           (if buttons AND AMOTION_EVENT_BUTTON_BACK \<noteq> 0
                                            then KEY_PRESS else KEY_RELEASE)) dev1)
                                 else dev1);
                         touchpad1 = touchpad\<lparr>injector := Some dev2,
                                       last_motion_event_buttons := buttons\<rparr>
                     in (Code (GetError dev2), touchpads[nat touchpad_id := touchpad1])))))"

subsection \<open>Scroll\<close>

definition scale_relative_scroll :: "float \<Rightarrow> 32 word option" where
  "scale_relative_scroll x =
     float_to_int32 (copysignf (ceilf (fabs (float_mul (Finite False 4 0) x))) x)"

text \<open>As in \<open>Touch\<close>, a NaN delta passes the range tests; its conversion is undefined.\<close>

definition Scroll ::
  "(EvdevInjector \<Rightarrow> int) \<Rightarrow> Touchpad list \<Rightarrow> int \<Rightarrow> float \<Rightarrow> float
     \<Rightarrow> (status \<times> Touchpad list) option" where
  "Scroll GetError touchpads touchpad_id x y =
     (if touchpad_id < 0 \<or> int (length touchpads) \<le> touchpad_id then Some (EINVAL, touchpads)
      else if float_lt x (Finite True 1 0) \<or> float_gt x (Finite False 1 0)
              \<or> float_lt y (Finite True 1 0) \<or> float_gt y (Finite False 1 0)
      then Some (EINVAL, touchpads)
      else
        (let touchpad = touchpads ! nat touchpad_id
         in (case injector touchpad of
              None \<Rightarrow> Some (ERROR_SEQUENCING, touchpads)
            | Some dev \<Rightarrow>
               (case scale_relative_scroll x of
                  None \<Rightarrow> None
                | Some scaled_x \<Rightarrow>
                   (case scale_relative_scroll y of
                      None \<Rightarrow> None
                    | Some scaled_y \<Rightarrow>
                       (let dev1 = invoke ResetError dev;
                            dev2 = (if scaled_x \<noteq> 0
                                    then invoke (SendRel REL_HWHEEL scaled_x) dev1 else dev1);
                            dev3 = (if scaled_y \<noteq> 0
                                    then invoke (SendRel REL_WHEEL scaled_y) dev2 else dev2);
                            dev4 = (if scaled_x \<noteq> 0 \<or> scaled_y \<noteq> 0
                                    then invoke SendSynReport dev3 else dev3)
                        in Some (Code (GetError dev4),
                                 touchpads[nat touchpad_id := touchpad\<lparr>injector := Some dev4\<rparr>])))))))"

subsection \<open>dumpInternal\<close>

text \<open>
  The injector's own \<open>dumpInternal\<close> is external: the parameter \<open>dump\<close> is what it makes
  of the text it is handed. The loop returns at the first slot without an injector.
\<close>

fun dump_loop :: "(EvdevInjector \<Rightarrow> string \<Rightarrow> string) \<Rightarrow> nat \<Rightarrow> Touchpad list \<Rightarrow> string \<Rightarrow> string" where
  "dump_loop dump i [] result = result"
| "dump_loop dump i (touchpad # rest) result =
     (let result1 = result @ ''[virtual touchpad '' @ format_d (int i) @ '']\<newline>''
      in (case injector touchpad of
           None \<Rightarrow> result1 @ ''injector = none\<newline>''
         | Some dev \<Rightarrow>
            (let result2 = result1 @ ''injector = ''
                             @ (if owned_injector touchpad then ''normal'' else ''test'') @ ''\<newline>'';
                 result3 = result2 @ ''touches = '' @ format_d (sint (touches touchpad)) @ ''\<newline>'';
                 result4 = result3 @ ''last_position = ('' @ format_d (sint (last_device_x touchpad))
                             @ '', '' @ format_d (sint (last_device_y touchpad)) @ '')\<newline>'';
                 result5 = result4 @ ''last_buttons = 0x''
                             @ format_X (last_motion_event_buttons touchpad) @ ''\<newline>'';
                 result6 = dump dev result5
             in dump_loop dump (Suc i) rest (result6 @ ''\<newline>''))))"

definition dumpInternal :: "(EvdevInjector \<Rightarrow> string \<Rightarrow> string) \<Rightarrow> Touchpad list \<Rightarrow> string \<Rightarrow> string" where
  "dumpInternal dump touchpads result = dump_loop dump 0 touchpads result"

section \<open>Reachable states\<close>

text \<open>The states of a manager: made by \<open>Create\<close>, then changed by its operations only.\<close>

inductive reachable :: "(EvdevInjector \<Rightarrow> int) \<Rightarrow> Touchpad list \<Rightarrow> bool"
  for GetError :: "EvdevInjector \<Rightarrow> int" where
  reachable_Create: "reachable GetError (Create kTouchpads)"
| reachable_Reset: "reachable GetError touchpads \<Longrightarrow> reachable GetError (Reset touchpads)"
| reachable_Attach:
    "reachable GetError touchpads \<Longrightarrow> reachable GetError (snd (Attach GetError touchpads))"
| reachable_Detach: "reachable GetError touchpads \<Longrightarrow> reachable GetError (snd (Detach touchpads))"
| reachable_Touch:
    "reachable GetError touchpads \<Longrightarrow>
     Touch GetError touchpads touchpad_id x y pressure = Some (st, touchpads') \<Longrightarrow>
     reachable GetError touchpads'"
| reachable_ButtonState:
    "reachable GetError touchpads \<Longrightarrow>
     ButtonState GetError touchpads touchpad_id buttons = (st, touchpads') \<Longrightarrow>
     reachable GetError touchpads'"
| reachable_Scroll:
    "reachable GetError touchpads \<Longrightarrow>
     Scroll GetError touchpads touchpad_id x y = Some (st, touchpads') \<Longrightarrow>
     reachable GetError touchpads'"

text \<open>Button masks with no bit but the back button's.\<close>

definition recognized :: "32 word list \<Rightarrow> bool" where
  "recognized masks = (\<forall>b \<in> set masks. b AND NOT AMOTION_EVENT_BUTTON_BACK = 0)"

section \<open>Example values\<close>

text \<open>The \<open>GetError\<close> of an injector that never fails.\<close>

definition always_OK :: "EvdevInjector \<Rightarrow> int" where
  "always_OK dev = 0"

text \<open>
  One touchpad, attached; then touched at \<open>(0.5, 0.25)\<close> with pressure \<open>1.0\<close>; then with the
  back button pressed.
\<close>

definition attached_pad :: "Touchpad list" where
  "attached_pad = snd (Attach always_OK (Create 1))"

definition pressed_pad :: "Touchpad list" where
  "pressed_pad =
     [\<lparr>owned_injector = True,
       injector = Some (invoke SendSynReport
                         (invoke (SendKey BTN_TOUCH KEY_PRESS)
                           (invoke (SendMultiTouchXY 0 0 32768 16384)
                             (invoke ResetError (configure 0 new_EvdevInjector))))),
       last_device_x = 32768, last_device_y = 16384, touches = 1,
       last_motion_event_buttons = 0\<rparr>]"

definition back_pad :: "Touchpad list" where
  "back_pad =
     [\<lparr>owned_injector = True,
       injector = Some (invoke SendSynReport
                         (invoke (SendKey BTN_BACK KEY_PRESS)
                           (invoke ResetError
                             (invoke SendSynReport
                               (invoke (SendKey BTN_TOUCH KEY_PRESS)
                                 (invoke (SendMultiTouchXY 0 0 32768 16384)
                                   (invoke ResetError (configure 0 new_EvdevInjector)))))))),
       last_device_x = 32768, last_device_y = 16384, touches = 1,
       last_motion_event_buttons = 8\<rparr>]"

text \<open>
  After \<open>pressed_pad\<close>: the contact released at \<open>(0.25, 0.5)\<close>; then a hover back at
  \<open>(0.5, 0.25)\<close>.
\<close>

definition released_dev :: EvdevInjector where
  "released_dev =
     invoke SendSynReport
       (invoke (SendMultiTouchLift 0)
         (invoke (SendKey BTN_TOUCH KEY_RELEASE)
           (invoke ResetError
             (invoke SendSynReport
               (invoke (SendKey BTN_TOUCH KEY_PRESS)
                 (invoke (SendMultiTouchXY 0 0 32768 16384)
                   (invoke ResetError (configure 0 new_EvdevInjector))))))))"

definition released_pad :: "Touchpad list" where
  "released_pad =
     [\<lparr>owned_injector = True, injector = Some released_dev,
       last_device_x = 16384, last_device_y = 32768, touches = 2,
       last_motion_event_buttons = 0\<rparr>]"

definition hover_pad :: "Touchpad list" where
  "hover_pad =
     [\<lparr>owned_injector = True,
       injector = Some (invoke SendSynReport
                         (invoke (SendMultiTouchXY 0 0 32768 16384)
                           (invoke ResetError released_dev))),
       last_device_x = 32768, last_device_y = 16384, touches = 0,
       last_motion_event_buttons = 0\<rparr>]"

text \<open>
  The last emitted position, in the words of the claim on the emission sequences: the
  position of the latest \<open>SendMultiTouchXY\<close> in an injector's log.
\<close>

fun last_emitted_position :: "call list \<Rightarrow> (32 word \<times> 32 word) option" where
  "last_emitted_position [] = None"
| "last_emitted_position (c # cs) =
     (case last_emitted_position cs of
        Some p \<Rightarrow> Some p
      | None \<Rightarrow> (case c of SendMultiTouchXY slot ident x y \<Rightarrow> Some (x, y) | _ \<Rightarrow> None))"

text \<open>An injector whose \<open>dumpInternal\<close> appends nothing.\<close>

definition silent_dump :: "EvdevInjector \<Rightarrow> string \<Rightarrow> string" where
  "silent_dump dev result = result"

section \<open>Exactness of the float operations the manager uses\<close>

lemma bitlen_le: "n < 2 ^ b \<Longrightarrow> bitlen n \<le> b"
proof (induction b arbitrary: n)
  case 0
  then show ?case by (simp add: bitlen.simps)
next
  case (Suc b)
  then have "n div 2 < 2 ^ b" by simp
  then have "bitlen (n div 2) \<le> b" by (rule Suc.IH)
  then show ?case by (subst bitlen.simps) simp
qed

lemma magnitude_nonneg: "0 \<le> magnitude m e"
  by (simp add: magnitude_def)

lemma magnitude_shift: "magnitude (m * 2 ^ k) e = magnitude m (e + int k)"
  by (simp add: magnitude_def power_int_add)

lemma magnitude_0 [simp]: "magnitude 0 e = 0"
  by (simp add: magnitude_def)

lemma magnitude_e0: "magnitude m 0 = of_nat m"
  by (simp add: magnitude_def)

lemma normalise_exact:
  assumes "magnitude m e < 2 ^ 128"
  shows "\<exists>m' e'. normalise s m e = Finite s m' e' \<and> magnitude m' e' = magnitude m e"
proof -
  have a: "104 < e \<Longrightarrow> magnitude (m * 2 ^ nat (e - 104)) 104 = magnitude m e"
    by (simp add: magnitude_shift)
  have b: "magnitude (2 ^ 23) (e + 1) = magnitude (2 ^ 24) e"
    by (simp add: magnitude_def power_int_add)
  show ?thesis using assms a b by (auto simp: normalise_def)
qed

lemma round_float_dvd:
  assumes "m \<noteq> 0" "k = nat (max 0 (max (int (bitlen m) - 24) (-149 - e)))" "2 ^ k dvd m"
  shows "round_float s m e = normalise s (m div 2 ^ k) (e + int k)"
proof -
  from assms(3) have r: "m mod 2 ^ k = 0" by (simp add: mod_eq_0_iff_dvd)
  show ?thesis using assms(1) assms(2) r
    by (simp add: round_float_def Let_def)
qed

lemma round_float_exact:
  assumes "m0 < 2 ^ 24" "-149 \<le> e" "magnitude (m0 * 2 ^ j) e < 2 ^ 128"
  shows "\<exists>m' e'. round_float s (m0 * 2 ^ j) e = Finite s m' e' \<and> magnitude m' e' = magnitude (m0 * 2 ^ j) e"
proof (cases "m0 = 0")
  case True
  then show ?thesis by (simp add: round_float_def)
next
  case False
  define m where "m = m0 * 2 ^ j"
  define k where "k = nat (max 0 (max (int (bitlen m) - 24) (-149 - e)))"
  have m0: "m \<noteq> 0" using False by (simp add: m_def)
  have "m < 2 ^ (24 + j)" using assms(1) by (simp add: m_def power_add)
  then have "bitlen m \<le> 24 + j" by (rule bitlen_le)
  with assms(2) have kj: "k \<le> j" by (simp add: k_def)
  then have "(2::nat) ^ k dvd 2 ^ j" by (simp add: le_imp_power_dvd)
  then have d: "2 ^ k dvd m" by (simp add: m_def)
  have eq: "round_float s m e = normalise s (m div 2 ^ k) (e + int k)"
    using m0 k_def d by (rule round_float_dvd)
  have "m div 2 ^ k * 2 ^ k = m" using d by simp
  then have mg: "magnitude (m div 2 ^ k) (e + int k) = magnitude m e"
    by (metis magnitude_shift)
  with assms(3) have "magnitude (m div 2 ^ k) (e + int k) < 2 ^ 128" by (simp add: m_def)
  from normalise_exact [OF this, of s] mg eq show ?thesis by (auto simp: m_def)
qed


lemma float_of_int32_kWidth: "float_of_int32 kWidth = Finite False (2 ^ 16) 0"
  by (simp add: float_of_int32_def kWidth_def round_float_def bitlen.simps normalise_def
        magnitude_def Let_def)

lemma float_of_int32_kHeight: "float_of_int32 kHeight = Finite False (2 ^ 16) 0"
  by (simp add: float_of_int32_def kHeight_def round_float_def bitlen.simps normalise_def
        magnitude_def Let_def)

lemma float_of_int32_0: "float_of_int32 0 = Finite False 0 0"
  by (simp add: float_of_int32_def round_float_def)

lemma round_to_zero_nonneg: "0 \<le> v \<Longrightarrow> round_to_zero v = \<lfloor>v\<rfloor>"
  by (simp add: round_to_zero_def)

lemma scale_coordinate:
  assumes "is_binary32 x" "float_val x = Some v" "0 \<le> v" "v < 1"
  shows "float_to_int32 (float_mul x (Finite False (2 ^ 16) 0)) = Some (word_of_int \<lfloor>v * 65536\<rfloor>)"
proof -
  from assms(2) obtain s m e where x: "x = Finite s m e"
    by (cases x) auto
  let ?g = "(if s then -1 else 1) :: rat"
  from assms(2) x have v: "v = ?g * magnitude m e" by simp
  from assms(1) x have m: "m < 2 ^ 24" and e: "-149 \<le> e" by simp_all
  have mag: "magnitude (m * 2 ^ 16) e = magnitude m e * 65536"
    by (simp add: magnitude_def)
  have "magnitude m e \<le> 1"
    using v assms(3) assms(4) magnitude_nonneg [of m e] by (cases s) auto
  then have "magnitude (m * 2 ^ 16) e < 2 ^ 128" unfolding mag by simp
  from round_float_exact [OF m e this, of s] obtain m' e' where
    r: "round_float s (m * 2 ^ 16) e = Finite s m' e'" and
    r': "magnitude m' e' = magnitude (m * 2 ^ 16) e" by blast
  have val: "?g * magnitude m' e' = v * 65536" unfolding r' mag v by simp
  have nn: "0 \<le> v * 65536" using assms(3) by simp
  have "v * 65536 < 65536" using assms(4) by simp
  then have up: "\<lfloor>v * 65536\<rfloor> < 65536" by (simp add: floor_less_iff)
  have lo: "0 \<le> \<lfloor>v * 65536\<rfloor>" using nn by simp
  have "float_mul x (Finite False (2 ^ 16) 0) = Finite s m' e'"
    using r by (simp add: x)
  then show ?thesis using val nn up lo
    by (simp add: round_to_zero_nonneg Let_def)
qed


section \<open>Touch on coordinates in range\<close>

lemma float_lt_zero: "float_val x = Some v \<Longrightarrow> float_lt x (Finite False 0 0) = (v < 0)"
  by (cases x) auto

lemma float_ge_one: "float_val x = Some v \<Longrightarrow> float_ge x (Finite False 1 0) = (1 \<le> v)"
  by (cases x) (auto simp: float_ge_def magnitude_def)

lemma Touch_in_range:
  assumes "0 \<le> touchpad_id" "touchpad_id < int (length touchpads)"
    and "is_binary32 x" "float_val x = Some vx" "0 \<le> vx" "vx < 1"
    and "is_binary32 y" "float_val y = Some vy" "0 \<le> vy" "vy < 1"
  shows "Touch GetError touchpads touchpad_id x y pressure =
     (let device_x = word_of_int \<lfloor>vx * 65536\<rfloor>;
          device_y = word_of_int \<lfloor>vy * 65536\<rfloor>;
          touchpad = touchpads ! nat touchpad_id;
          touchpad1 = touchpad\<lparr>touches :=
             push_bit 1 (touches touchpad AND 1)
               OR (if float_gt pressure (Finite False 0 0) then 1 else 0)\<rparr>
      in (case injector touchpad of
            None \<Rightarrow> Some (ERROR_SEQUENCING, touchpads[nat touchpad_id := touchpad1])
          | Some dev \<Rightarrow>
             (let dev1 = Touch_switch touchpad1 device_x device_y (invoke ResetError dev)
              in Some (Code (GetError dev1),
                       touchpads[nat touchpad_id := touchpad1\<lparr>injector := Some dev1,
                          last_device_x := device_x, last_device_y := device_y\<rparr>]))))"
proof -
  have cx: "float_to_int32 (float_mul x (float_of_int32 kWidth)) = Some (word_of_int \<lfloor>vx * 65536\<rfloor>)"
    unfolding float_of_int32_kWidth using assms(3-6) by (rule scale_coordinate)
  have cy: "float_to_int32 (float_mul y (float_of_int32 kHeight)) = Some (word_of_int \<lfloor>vy * 65536\<rfloor>)"
    unfolding float_of_int32_kHeight using assms(7-10) by (rule scale_coordinate)
  have rx: "\<not> float_lt x (Finite False 0 0)" "\<not> float_ge x (Finite False 1 0)"
    using float_lt_zero [OF assms(4)] float_ge_one [OF assms(4)] assms(5,6) by auto
  have ry: "\<not> float_lt y (Finite False 0 0)" "\<not> float_ge y (Finite False 1 0)"
    using float_lt_zero [OF assms(8)] float_ge_one [OF assms(8)] assms(9,10) by auto
  have idx: "\<not> (touchpad_id < 0 \<or> int (length touchpads) \<le> touchpad_id)"
    using assms(1,2) by simp
  show ?thesis
    unfolding Touch_def using idx rx ry
    by (simp only: cx cy if_False option.case Let_def simp_thms float_of_int32_0) simp
qed


section \<open>Scroll quantization\<close>

lemma magnitude_int:
  assumes "0 \<le> e"
  shows "magnitude m e = of_int (int (m * 2 ^ nat e))"
proof -
  have "(2::rat) powi e = 2 ^ nat e" using assms by (simp add: power_int_def)
  then show ?thesis by (simp add: magnitude_def)
qed

lemma ceilf_fabs:
  "\<exists>m' e'. ceilf (Finite False m e) = Finite False m' e' \<and> magnitude m' e' = of_int \<lceil>magnitude m e\<rceil>"
proof (cases "0 \<le> e")
  case True
  then have "magnitude m e = of_int (int (m * 2 ^ nat e))" by (rule magnitude_int)
  then obtain n where n: "magnitude m e = of_int n" ..
  have i: "magnitude m e = of_int \<lceil>magnitude m e\<rceil>" unfolding n by simp
  show ?thesis
  proof (intro exI conjI)
    show "ceilf (Finite False m e) = Finite False m e" using True by simp
    show "magnitude m e = of_int \<lceil>magnitude m e\<rceil>" by (rule i)
  qed
next
  case False
  have "0 \<le> \<lceil>magnitude m e\<rceil>" using magnitude_nonneg [of m e] by (simp add: ceiling_le_iff le_ceiling_iff)
  then have "magnitude (nat \<bar>\<lceil>magnitude m e\<rceil>\<bar>) 0 = of_int \<lceil>magnitude m e\<rceil>"
    by (simp add: magnitude_e0)
  with False show ?thesis by simp
qed

lemma round_to_zero_signed:
  assumes "0 \<le> c"
  shows "round_to_zero ((if s then -1 else 1) * of_int c) = (if s then - c else c)"
  using assms by (auto simp: round_to_zero_def)

lemma scale_relative_scroll_value:
  assumes "is_binary32 x" "float_val x = Some v" "-1 \<le> v" "v \<le> 1"
  shows "scale_relative_scroll x = Some (word_of_int (if v < 0 then - \<lceil>\<bar>4 * v\<bar>\<rceil> else \<lceil>\<bar>4 * v\<bar>\<rceil>))"
proof -
  from assms(2) obtain s m e where x: "x = Finite s m e"
    by (cases x) auto
  let ?g = "(if s then -1 else 1) :: rat"
  from assms(2) x have v: "v = ?g * magnitude m e" by simp
  from assms(1) x have m: "m < 2 ^ 24" and e: "-149 \<le> e" by simp_all
  have mag: "magnitude (m * 2 ^ 2) e = 4 * magnitude m e"
    by (simp add: magnitude_def)
  have m1: "magnitude m e \<le> 1"
    using v assms(3) assms(4) magnitude_nonneg [of m e] by (cases s) auto
  then have "magnitude (m * 2 ^ 2) e < 2 ^ 128" unfolding mag by simp
  from round_float_exact [OF m e this, of s] obtain m' e' where
    r: "round_float s (m * 2 ^ 2) e = Finite s m' e'" and
    r': "magnitude m' e' = magnitude (m * 2 ^ 2) e" by blast
  have abs4: "\<bar>4 * v\<bar> = magnitude m' e'"
    unfolding r' mag v using magnitude_nonneg [of m e] by (simp add: abs_mult)
  have "round_float s (4 * m) e = round_float s (m * 2 ^ 2) e" by (simp add: mult.commute)
  then have prod: "float_mul (Finite False 4 0) x = Finite s m' e'"
    using r by (simp add: x)
  from ceilf_fabs [of m' e'] obtain m'' e'' where
    c: "ceilf (Finite False m' e') = Finite False m'' e''" and
    c': "magnitude m'' e'' = of_int \<lceil>magnitude m' e'\<rceil>" by blast
  let ?c = "\<lceil>\<bar>4 * v\<bar>\<rceil>"
  have c0: "0 \<le> ?c" by (simp add: le_ceiling_iff)
  have "\<bar>4 * v\<bar> \<le> 4" unfolding abs4 r' mag using m1 by simp
  then have c4: "?c \<le> 4" by (simp add: ceiling_le_iff)
  have whole: "copysignf (ceilf (fabs (float_mul (Finite False 4 0) x))) x = Finite s m'' e''"
    unfolding prod fabs.simps c by (simp add: x)
  have tz: "round_to_zero (?g * magnitude m'' e'') = (if s then - ?c else ?c)"
    unfolding c' abs4 [symmetric] using c0 by (rule round_to_zero_signed)
  have sgn: "(if s then - ?c else ?c) = (if v < 0 then - ?c else ?c)"
  proof (cases "magnitude m e = 0")
    case True
    then have "v = 0" by (simp add: v)
    then show ?thesis by simp
  next
    case False
    then have "0 < magnitude m e" using magnitude_nonneg [of m e] by simp
    then show ?thesis by (cases s) (simp_all add: v)
  qed
  have rng: "- (2 ^ 31) \<le> (if s then - ?c else ?c) \<and> (if s then - ?c else ?c) < 2 ^ 31"
  proof -
    define c where "c = ?c"
    have "0 \<le> c" "c \<le> 4" using c0 c4 by (simp_all only: c_def)
    then have "- (2 ^ 31) \<le> (if s then - c else c) \<and> (if s then - c else c) < 2 ^ 31"
      by auto
    then show ?thesis by (simp only: c_def)
  qed
  show ?thesis
    unfolding scale_relative_scroll_def whole float_to_int32.simps Let_def tz
    using rng sgn by simp
qed


lemma sint_small:
  assumes "-4 \<le> (n::int)" "n \<le> 4"
  shows "sint (word_of_int n :: 32 word) = n"
proof -
  have "signed_take_bit 31 n = n"
    using assms by (intro signed_take_bit_int_eq_self) simp_all
  then show ?thesis by (simp add: sint_sbintrunc')
qed

lemma quantized:
  fixes v :: rat
  assumes "-1 \<le> v" "v \<le> 1"
  defines "q \<equiv> (if v < 0 then - \<lceil>\<bar>4 * v\<bar>\<rceil> else \<lceil>\<bar>4 * v\<bar>\<rceil>)"
  shows "sint (word_of_int q :: 32 word) = q"
    and "of_int q = sgn v * of_int \<lceil>\<bar>4 * v\<bar>\<rceil>"
    and "v \<noteq> 0 \<Longrightarrow> 1 \<le> \<bar>q\<bar>"
    and "v = 0 \<Longrightarrow> q = 0"
proof -
  define c where "c = \<lceil>\<bar>4 * v\<bar>\<rceil>"
  have q: "q = (if v < 0 then - c else c)" by (simp add: q_def c_def)
  have "\<bar>4 * v\<bar> \<le> 4" using assms(1,2) by (simp add: abs_le_iff)
  then have c4: "c \<le> 4" by (simp add: c_def ceiling_le_iff)
  have c0: "0 \<le> c" by (simp add: c_def le_ceiling_iff)
  have cpos: "0 < c" if "v \<noteq> 0"
  proof -
    from that have "0 < \<bar>4 * v\<bar>" by simp
    then show ?thesis by (simp add: c_def less_ceiling_iff)
  qed
  show "sint (word_of_int q :: 32 word) = q"
    using c0 c4 by (intro sint_small) (simp_all add: q)
  show "of_int q = sgn v * of_int \<lceil>\<bar>4 * v\<bar>\<rceil>"
    unfolding c_def [symmetric] q by (cases "v = 0") (auto simp: c_def sgn_if)
  show "1 \<le> \<bar>q\<bar>" if "v \<noteq> 0" using cpos [OF that] by (simp add: q)
  show "q = 0" if "v = 0" using that by (simp add: q_def)
qed

lemma float_lt_minus_one: "float_val x = Some v \<Longrightarrow> float_lt x (Finite True 1 0) = (v < -1)"
  by (cases x) (auto simp: magnitude_def)

lemma float_gt_one: "float_val x = Some v \<Longrightarrow> float_gt x (Finite False 1 0) = (1 < v)"
  by (cases x) (auto simp: float_gt_def magnitude_def)

lemma Scroll_in_range:
  assumes "0 \<le> touchpad_id" "touchpad_id < int (length touchpads)"
    and "injector (touchpads ! nat touchpad_id) = Some dev"
    and "scale_relative_scroll x = Some scaled_x" "float_val x = Some vx" "-1 \<le> vx" "vx \<le> 1"
    and "scale_relative_scroll y = Some scaled_y" "float_val y = Some vy" "-1 \<le> vy" "vy \<le> 1"
  shows "Scroll GetError touchpads touchpad_id x y =
     (let dev1 = invoke ResetError dev;
          dev2 = (if scaled_x \<noteq> 0 then invoke (SendRel REL_HWHEEL scaled_x) dev1 else dev1);
          dev3 = (if scaled_y \<noteq> 0 then invoke (SendRel REL_WHEEL scaled_y) dev2 else dev2);
          dev4 = (if scaled_x \<noteq> 0 \<or> scaled_y \<noteq> 0 then invoke SendSynReport dev3 else dev3)
      in Some (Code (GetError dev4),
               touchpads[nat touchpad_id := (touchpads ! nat touchpad_id)\<lparr>injector := Some dev4\<rparr>]))"
proof -
  have rx: "\<not> float_lt x (Finite True 1 0)" "\<not> float_gt x (Finite False 1 0)"
    using float_lt_minus_one [OF assms(5)] float_gt_one [OF assms(5)] assms(6,7) by auto
  have ry: "\<not> float_lt y (Finite True 1 0)" "\<not> float_gt y (Finite False 1 0)"
    using float_lt_minus_one [OF assms(9)] float_gt_one [OF assms(9)] assms(10,11) by auto
  have idx: "\<not> (touchpad_id < 0 \<or> int (length touchpads) \<le> touchpad_id)"
    using assms(1,2) by simp
  show ?thesis
    unfolding Scroll_def using idx rx ry
    by (simp only: assms(3,4,8) if_False option.case Let_def simp_thms)
qed


lemma calls_invoke: "calls (invoke c dev) = calls dev @ [c]"
  by (simp add: invoke_def)

text \<open>
  Claim C4. On an attached slot in range, with binary32 deltas whose values \<open>vx\<close>, \<open>vy\<close> lie
  in \<open>[-1, 1]\<close>, each axis is quantized on its own to \<open>sgn v * ceiling \<bar>4 * v\<bar>\<close>: of
  magnitude at least 1 when \<open>v\<close> is not zero, and 0 when it is. After \<open>ResetError\<close>, \<open>Scroll\<close>
  calls \<open>SendRel\<close> once for each axis whose quantized delta is not zero (\<open>REL_HWHEEL\<close>, then
  \<open>REL_WHEEL\<close>, two distinct codes), then \<open>SendSynReport\<close> once if it sent any, and makes
  no other call: none at all after \<open>ResetError\<close> when both deltas quantize to zero.
\<close>

theorem Scroll_quantization:
  assumes "0 \<le> touchpad_id" "touchpad_id < int (length touchpads)"
    and "injector (touchpads ! nat touchpad_id) = Some dev"
    and "is_binary32 x" "float_val x = Some vx" "-1 \<le> vx" "vx \<le> 1"
    and "is_binary32 y" "float_val y = Some vy" "-1 \<le> vy" "vy \<le> 1"
  shows "\<exists>scaled_x scaled_y st touchpads' dev'.
           scale_relative_scroll x = Some scaled_x \<and>
           scale_relative_scroll y = Some scaled_y \<and>
           of_int (sint scaled_x) = sgn vx * of_int \<lceil>\<bar>4 * vx\<bar>\<rceil> \<and>
           of_int (sint scaled_y) = sgn vy * of_int \<lceil>\<bar>4 * vy\<bar>\<rceil> \<and>
           (vx \<noteq> 0 \<longrightarrow> 1 \<le> \<bar>sint scaled_x\<bar>) \<and> (vx = 0 \<longrightarrow> scaled_x = 0) \<and>
           (vy \<noteq> 0 \<longrightarrow> 1 \<le> \<bar>sint scaled_y\<bar>) \<and> (vy = 0 \<longrightarrow> scaled_y = 0) \<and>
           Scroll GetError touchpads touchpad_id x y = Some (st, touchpads') \<and>
           injector (touchpads' ! nat touchpad_id) = Some dev' \<and>
           calls dev' = calls dev @ [ResetError]
              @ (if scaled_x \<noteq> 0 then [SendRel REL_HWHEEL scaled_x] else [])
              @ (if scaled_y \<noteq> 0 then [SendRel REL_WHEEL scaled_y] else [])
              @ (if scaled_x \<noteq> 0 \<or> scaled_y \<noteq> 0 then [SendSynReport] else []) \<and>
           REL_HWHEEL \<noteq> REL_WHEEL"
proof -
  define qx where "qx = (if vx < 0 then - \<lceil>\<bar>4 * vx\<bar>\<rceil> else \<lceil>\<bar>4 * vx\<bar>\<rceil>)"
  define qy where "qy = (if vy < 0 then - \<lceil>\<bar>4 * vy\<bar>\<rceil> else \<lceil>\<bar>4 * vy\<bar>\<rceil>)"
  define scaled_x :: "32 word" where "scaled_x = word_of_int qx"
  define scaled_y :: "32 word" where "scaled_y = word_of_int qy"
  have sx: "scale_relative_scroll x = Some scaled_x"
    unfolding scaled_x_def qx_def using assms(4-7) by (rule scale_relative_scroll_value)
  have sy: "scale_relative_scroll y = Some scaled_y"
    unfolding scaled_y_def qy_def using assms(8-11) by (rule scale_relative_scroll_value)
  note qxs = quantized [OF assms(6,7), folded qx_def]
  note qys = quantized [OF assms(10,11), folded qy_def]
  have ix: "sint scaled_x = qx" unfolding scaled_x_def by (rule qxs(1))
  have iy: "sint scaled_y = qy" unfolding scaled_y_def by (rule qys(1))
  have zx: "vx = 0 \<longrightarrow> scaled_x = 0" using qxs(4) by (simp add: scaled_x_def)
  have zy: "vy = 0 \<longrightarrow> scaled_y = 0" using qys(4) by (simp add: scaled_y_def)
  note S = Scroll_in_range [OF assms(1-3) sx assms(5-7) sy assms(9-11), of GetError]
  let ?dev' = "(let dev1 = invoke ResetError dev;
          dev2 = (if scaled_x \<noteq> 0 then invoke (SendRel REL_HWHEEL scaled_x) dev1 else dev1);
          dev3 = (if scaled_y \<noteq> 0 then invoke (SendRel REL_WHEEL scaled_y) dev2 else dev2)
      in (if scaled_x \<noteq> 0 \<or> scaled_y \<noteq> 0 then invoke SendSynReport dev3 else dev3))"
  have n: "nat touchpad_id < length touchpads" using assms(1,2) by simp
  have c: "calls ?dev' = calls dev @ [ResetError]
              @ (if scaled_x \<noteq> 0 then [SendRel REL_HWHEEL scaled_x] else [])
              @ (if scaled_y \<noteq> 0 then [SendRel REL_WHEEL scaled_y] else [])
              @ (if scaled_x \<noteq> 0 \<or> scaled_y \<noteq> 0 then [SendSynReport] else [])"
    by (simp add: Let_def calls_invoke)
  have r: "Scroll GetError touchpads touchpad_id x y =
      Some (Code (GetError ?dev'),
            touchpads[nat touchpad_id := (touchpads ! nat touchpad_id)\<lparr>injector := Some ?dev'\<rparr>])"
    unfolding S by (simp only: Let_def)
  have i: "injector (touchpads[nat touchpad_id := (touchpads ! nat touchpad_id)\<lparr>injector := Some ?dev'\<rparr>]
              ! nat touchpad_id) = Some ?dev'"
    using n by simp
  show ?thesis
    using sx sy qxs(2) qys(2) qxs(3) qys(3) zx zy r i c unfolding ix [symmetric] iy [symmetric]
    by (intro exI conjI) (assumption | simp)+
qed


lemma Attach_Create_1:
  "snd (Attach always_OK (Create 1)) =
     [\<lparr>owned_injector = True, injector = Some (configure 0 new_EvdevInjector),
       last_device_x = INT32_MIN, last_device_y = INT32_MIN, touches = 0,
       last_motion_event_buttons = 0\<rparr>]"
  by (simp add: Attach_def Create_def Reset_def Reset_touchpad_def new_Touchpad_def
        Attach_touchpad_def Let_def)

theorem Scroll_quantization_witness:
  "\<exists>st touchpads' dev'.
      Scroll always_OK (snd (Attach always_OK (Create 1))) 0
             (Finite False 13421773 (-27)) (Finite True 0 0) = Some (st, touchpads') \<and>
      injector (touchpads' ! 0) = Some dev' \<and>
      calls dev' = calls (configure 0 new_EvdevInjector)
                     @ [ResetError, SendRel REL_HWHEEL 1, SendSynReport]"
proof -
  let ?t = "snd (Attach always_OK (Create 1))"
  have a: "(0::int) \<le> 0" "0 < int (length ?t)" unfolding Attach_Create_1 by simp_all
  have b: "injector (?t ! nat 0) = Some (configure 0 new_EvdevInjector)"
    unfolding Attach_Create_1 by simp
  have x: "is_binary32 (Finite False 13421773 (-27))"
    "float_val (Finite False 13421773 (-27)) = Some (13421773 / 134217728)"
    "-1 \<le> (13421773 / 134217728 :: rat)" "(13421773 / 134217728 :: rat) \<le> 1"
    by (simp_all add: magnitude_def power_int_minus)
  have y: "is_binary32 (Finite True 0 0)" "float_val (Finite True 0 0) = Some 0"
    "-1 \<le> (0 :: rat)" "(0 :: rat) \<le> 1"
    by simp_all
  have c: "\<lceil>\<bar>4 * (13421773 / 134217728 :: rat)\<bar>\<rceil> = 1" by (simp add: ceiling_unique)
  from Scroll_quantization [OF a b x y, of always_OK]
  obtain scaled_x scaled_y st touchpads' dev' where
    sx: "rat_of_int (sint scaled_x) = sgn (13421773 / 134217728) * of_int \<lceil>\<bar>4 * (13421773 / 134217728 :: rat)\<bar>\<rceil>"
    and sy: "scaled_y = 0"
    and r: "Scroll always_OK ?t 0 (Finite False 13421773 (-27)) (Finite True 0 0) = Some (st, touchpads')"
       "injector (touchpads' ! nat 0) = Some dev'"
    and cl: "calls dev' = calls (configure 0 new_EvdevInjector) @ [ResetError]
              @ (if scaled_x \<noteq> 0 then [SendRel REL_HWHEEL scaled_x] else [])
              @ (if scaled_y \<noteq> 0 then [SendRel REL_WHEEL scaled_y] else [])
              @ (if scaled_x \<noteq> 0 \<or> scaled_y \<noteq> 0 then [SendSynReport] else [])"
    by auto
  from sx have "rat_of_int (sint scaled_x) = 1" unfolding c by (simp del: of_int_sint)
  then have "sint scaled_x = 1" by (simp only: of_int_eq_1_iff)
  then have "word_of_int (sint scaled_x) = (word_of_int 1 :: 32 word)" by simp
  then have "scaled_x = 1" by simp
  with sy r cl show ?thesis by auto
qed


section \<open>The Touch state machine\<close>

lemma and_1_cases: "(t::32 word) AND 1 = 0 \<or> t AND 1 = 1"
  by (simp add: and_one_eq) (metis even_iff_mod_2_eq_zero odd_iff_mod_2_eq_one)

lemma touches_cases:
  fixes t :: "32 word"
  shows "push_bit 1 (t AND 1) OR (if c then 1 else 0) =
           (if t AND 1 = 0 then (if c then 1 else 0) else (if c then 3 else 2))"
proof -
  from and_1_cases [of t] show ?thesis
  proof
    assume a: "t AND 1 = 0"
    show ?thesis unfolding a by simp
  next
    assume a: "t AND 1 = 1"
    show ?thesis unfolding a by simp
  qed
qed

lemma calls_Touch_switch:
  "calls (Touch_switch touchpad device_x device_y dev) = calls dev @
     (if touches touchpad = 1 then
        [SendMultiTouchXY 0 0 device_x device_y, SendKey BTN_TOUCH KEY_PRESS, SendSynReport]
      else if touches touchpad = 2 then
        [SendKey BTN_TOUCH KEY_RELEASE, SendMultiTouchLift 0, SendSynReport]
      else if (touches touchpad = 0 \<or> touches touchpad = 3)
              \<and> (device_x \<noteq> last_device_x touchpad \<or> device_y \<noteq> last_device_y touchpad) then
        [SendMultiTouchXY 0 0 device_x device_y, SendSynReport]
      else [])"
  by (simp add: Touch_switch_def calls_invoke)


lemma Touch_attached:
  assumes "0 \<le> touchpad_id" "touchpad_id < int (length touchpads)"
    and "injector (touchpads ! nat touchpad_id) = Some dev"
    and "is_binary32 x" "float_val x = Some vx" "0 \<le> vx" "vx < 1"
    and "is_binary32 y" "float_val y = Some vy" "0 \<le> vy" "vy < 1"
  shows "\<exists>st touchpads' touchpad' dev'.
           Touch GetError touchpads touchpad_id x y pressure = Some (st, touchpads') \<and>
           touchpads' = touchpads[nat touchpad_id := touchpad'] \<and>
           touchpads' ! nat touchpad_id = touchpad' \<and>
           injector touchpad' = Some dev' \<and>
           last_device_x touchpad' = word_of_int \<lfloor>vx * 65536\<rfloor> \<and>
           last_device_y touchpad' = word_of_int \<lfloor>vy * 65536\<rfloor> \<and>
           last_motion_event_buttons touchpad' = last_motion_event_buttons (touchpads ! nat touchpad_id) \<and>
           owned_injector touchpad' = owned_injector (touchpads ! nat touchpad_id) \<and>
           touches touchpad' =
             (if touches (touchpads ! nat touchpad_id) AND 1 = 0
              then (if float_gt pressure (float_of_int32 0) then 1 else 0)
              else (if float_gt pressure (float_of_int32 0) then 3 else 2)) \<and>
           calls dev' = calls dev @ [ResetError] @
             (if touches (touchpads ! nat touchpad_id) AND 1 = 0 \<and> float_gt pressure (float_of_int32 0) then
                [SendMultiTouchXY 0 0 (word_of_int \<lfloor>vx * 65536\<rfloor>) (word_of_int \<lfloor>vy * 65536\<rfloor>),
                 SendKey BTN_TOUCH KEY_PRESS, SendSynReport]
              else if touches (touchpads ! nat touchpad_id) AND 1 \<noteq> 0
                      \<and> \<not> float_gt pressure (float_of_int32 0) then
                [SendKey BTN_TOUCH KEY_RELEASE, SendMultiTouchLift 0, SendSynReport]
              else if word_of_int \<lfloor>vx * 65536\<rfloor> \<noteq> last_device_x (touchpads ! nat touchpad_id)
                      \<or> word_of_int \<lfloor>vy * 65536\<rfloor> \<noteq> last_device_y (touchpads ! nat touchpad_id) then
                [SendMultiTouchXY 0 0 (word_of_int \<lfloor>vx * 65536\<rfloor>) (word_of_int \<lfloor>vy * 65536\<rfloor>),
                 SendSynReport]
              else [])"
proof -
  define touchpad where "touchpad = touchpads ! nat touchpad_id"
  define c where "c = float_gt pressure (Finite False 0 0)"
  define T :: "32 word" where "T = push_bit 1 (touches touchpad AND 1) OR (if c then 1 else 0)"
  define device_x :: "32 word" where "device_x = word_of_int \<lfloor>vx * 65536\<rfloor>"
  define device_y :: "32 word" where "device_y = word_of_int \<lfloor>vy * 65536\<rfloor>"
  define dev1 where "dev1 = Touch_switch (touchpad\<lparr>touches := T\<rparr>) device_x device_y (invoke ResetError dev)"
  define touchpad2 where "touchpad2 = touchpad\<lparr>touches := T, injector := Some dev1,
                            last_device_x := device_x, last_device_y := device_y\<rparr>"
  have n: "nat touchpad_id < length touchpads" using assms(1,2) by simp
  have T: "T = (if touches touchpad AND 1 = 0 then (if c then 1 else 0) else (if c then 3 else 2))"
    unfolding T_def by (rule touches_cases)
  have r: "Touch GetError touchpads touchpad_id x y pressure =
             Some (Code (GetError dev1), touchpads[nat touchpad_id := touchpad2])"
    unfolding Touch_in_range [OF assms(1,2) assms(4-11)] touchpad2_def dev1_def T_def c_def
      device_x_def device_y_def touchpad_def Let_def assms(3) option.case
    by (rule refl)
  have cl: "calls dev1 = calls dev @ [ResetError] @
             (if touches touchpad AND 1 = 0 \<and> c then
                [SendMultiTouchXY 0 0 device_x device_y, SendKey BTN_TOUCH KEY_PRESS, SendSynReport]
              else if touches touchpad AND 1 \<noteq> 0 \<and> \<not> c then
                [SendKey BTN_TOUCH KEY_RELEASE, SendMultiTouchLift 0, SendSynReport]
              else if device_x \<noteq> last_device_x touchpad \<or> device_y \<noteq> last_device_y touchpad then
                [SendMultiTouchXY 0 0 device_x device_y, SendSynReport]
              else [])"
    unfolding dev1_def calls_Touch_switch by (simp add: T calls_invoke)
  show ?thesis
    unfolding float_of_int32_0 touchpad_def [symmetric] c_def [symmetric]
      device_x_def [symmetric] device_y_def [symmetric]
  proof (intro exI conjI)
    show "Touch GetError touchpads touchpad_id x y pressure =
             Some (Code (GetError dev1), touchpads[nat touchpad_id := touchpad2])" by (rule r)
    show "touchpads[nat touchpad_id := touchpad2] = touchpads[nat touchpad_id := touchpad2]" ..
    show "touchpads[nat touchpad_id := touchpad2] ! nat touchpad_id = touchpad2" using n by simp
    show "injector touchpad2 = Some dev1" by (simp add: touchpad2_def)
    show "last_device_x touchpad2 = device_x" by (simp add: touchpad2_def)
    show "last_device_y touchpad2 = device_y" by (simp add: touchpad2_def)
    show "last_motion_event_buttons touchpad2 = last_motion_event_buttons touchpad"
      by (simp add: touchpad2_def)
    show "owned_injector touchpad2 = owned_injector touchpad" by (simp add: touchpad2_def)
    show "touches touchpad2 =
            (if touches touchpad AND 1 = 0 then (if c then 1 else 0) else (if c then 3 else 2))"
      by (simp add: touchpad2_def T)
    show "calls dev1 = calls dev @ [ResetError] @
             (if touches touchpad AND 1 = 0 \<and> c then
                [SendMultiTouchXY 0 0 device_x device_y, SendKey BTN_TOUCH KEY_PRESS, SendSynReport]
              else if touches touchpad AND 1 \<noteq> 0 \<and> \<not> c then
                [SendKey BTN_TOUCH KEY_RELEASE, SendMultiTouchLift 0, SendSynReport]
              else if device_x \<noteq> last_device_x touchpad \<or> device_y \<noteq> last_device_y touchpad then
                [SendMultiTouchXY 0 0 device_x device_y, SendSynReport]
              else [])" by (rule cl)
  qed
qed


lemmas float_eval = float_of_int32_def round_float_def bitlen.simps normalise_def
  magnitude_def round_to_zero_def Let_def kWidth_def kHeight_def float_gt_def float_ge_def
  power_int_minus

lemma attached_pad_eq:
  "attached_pad =
     [\<lparr>owned_injector = True, injector = Some (configure 0 new_EvdevInjector),
       last_device_x = INT32_MIN, last_device_y = INT32_MIN, touches = 0,
       last_motion_event_buttons = 0\<rparr>]"
  unfolding attached_pad_def by (rule Attach_Create_1)

lemma Touch_attached_pad:
  "Touch always_OK attached_pad 0 (Finite False 1 (-1)) (Finite False 1 (-2)) (Finite False 1 0)
     = Some (Code 0, pressed_pad)"
  unfolding attached_pad_eq pressed_pad_def
  by (simp add: Touch_def float_eval Touch_switch_def always_OK_def INT32_MIN_def)

lemma ButtonState_pressed_pad:
  "ButtonState always_OK pressed_pad 0 AMOTION_EVENT_BUTTON_BACK = (Code 0, back_pad)"
  unfolding pressed_pad_def back_pad_def
  by (simp add: ButtonState_def AMOTION_EVENT_BUTTON_BACK_def always_OK_def Let_def)

lemma reachable_back_pad: "reachable always_OK back_pad"
proof -
  have "reachable always_OK (Create 1)" by (rule reachable_Create)
  then have "reachable always_OK attached_pad"
    unfolding attached_pad_def by (rule reachable_Attach)
  then have "reachable always_OK pressed_pad"
    using Touch_attached_pad by (rule reachable_Touch)
  then show ?thesis using ButtonState_pressed_pad by (rule reachable_ButtonState)
qed


section \<open>Device coordinates\<close>

lemma sint_coordinate:
  assumes "0 \<le> (n::int)" "n < 65536"
  shows "sint (word_of_int n :: 32 word) = n"
proof -
  have "signed_take_bit 31 n = n"
    using assms by (intro signed_take_bit_int_eq_self) simp_all
  then show ?thesis by (simp add: sint_sbintrunc')
qed

lemma floor_coordinate:
  assumes "0 \<le> (v::rat)" "v < 1"
  shows "0 \<le> \<lfloor>v * 65536\<rfloor>" "\<lfloor>v * 65536\<rfloor> < 65536"
proof -
  show "0 \<le> \<lfloor>v * 65536\<rfloor>" using assms(1) by simp
  have "v * 65536 < 65536" using assms(2) by simp
  then show "\<lfloor>v * 65536\<rfloor> < 65536" by (simp add: floor_less_iff)
qed

lemma Touch_accepts:
  assumes "0 \<le> touchpad_id" "touchpad_id < int (length touchpads)"
    and "is_binary32 x" "float_val x = Some vx" "0 \<le> vx" "vx < 1"
    and "is_binary32 y" "float_val y = Some vy" "0 \<le> vy" "vy < 1"
  shows "\<exists>st touchpads'. Touch GetError touchpads touchpad_id x y pressure = Some (st, touchpads')
                          \<and> st \<noteq> EINVAL"
  unfolding Touch_in_range [OF assms]
  by (cases "injector (touchpads ! nat touchpad_id)") (simp_all add: Let_def)

section \<open>The calls of Touch\<close>

lemma device_coordinates:
  assumes "is_binary32 x" "float_val x = Some vx" "0 \<le> vx" "vx < 1"
    and "is_binary32 y" "float_val y = Some vy" "0 \<le> vy" "vy < 1"
  shows "float_to_int32 (float_mul x (float_of_int32 kWidth)) = Some (word_of_int \<lfloor>vx * 65536\<rfloor>)"
    and "float_to_int32 (float_mul y (float_of_int32 kHeight)) = Some (word_of_int \<lfloor>vy * 65536\<rfloor>)"
proof -
  show "float_to_int32 (float_mul x (float_of_int32 kWidth)) = Some (word_of_int \<lfloor>vx * 65536\<rfloor>)"
    unfolding float_of_int32_kWidth using assms(1-4) by (rule scale_coordinate)
  show "float_to_int32 (float_mul y (float_of_int32 kHeight)) = Some (word_of_int \<lfloor>vy * 65536\<rfloor>)"
    unfolding float_of_int32_kHeight using assms(5-8) by (rule scale_coordinate)
qed

text \<open>
  Claim C1, amended. On a slot in range with an attached injector and binary32 coordinates in
  \<open>[0, 1)\<close>, \<open>Touch\<close> calls \<open>ResetError\<close> and then makes exactly the calls that the
  previous contact (bit 0 of the stored history) and the new one (\<open>pressure > 0\<close>) select.
  Contact begins (history 01): \<open>SendMultiTouchXY\<close>, \<open>SendKey BTN_TOUCH KEY_PRESS\<close>,
  \<open>SendSynReport\<close>. Contact ends (history 10): \<open>SendKey BTN_TOUCH KEY_RELEASE\<close>,
  \<open>SendMultiTouchLift 0\<close>, \<open>SendSynReport\<close>, and no position. Contact absent or sustained
  (00 or 11): \<open>SendMultiTouchXY\<close> and \<open>SendSynReport\<close> if the device position differs from
  the slot's stored \<open>last_device_x\<close>, \<open>last_device_y\<close> (the position of the slot's previous
  accepted \<open>Touch\<close>, or the unset value), and nothing if it does not.
\<close>

theorem Touch_emission_sequences:
  assumes "0 \<le> touchpad_id" "touchpad_id < int (length touchpads)"
    and "injector (touchpads ! nat touchpad_id) = Some dev"
    and "is_binary32 x" "float_val x = Some vx" "0 \<le> vx" "vx < 1"
    and "is_binary32 y" "float_val y = Some vy" "0 \<le> vy" "vy < 1"
  shows "\<exists>device_x device_y st touchpads' dev'.
           float_to_int32 (float_mul x (float_of_int32 kWidth)) = Some device_x \<and>
           float_to_int32 (float_mul y (float_of_int32 kHeight)) = Some device_y \<and>
           Touch GetError touchpads touchpad_id x y pressure = Some (st, touchpads') \<and>
           injector (touchpads' ! nat touchpad_id) = Some dev' \<and>
           touches (touchpads' ! nat touchpad_id) =
             (if touches (touchpads ! nat touchpad_id) AND 1 = 0
              then (if float_gt pressure (float_of_int32 0) then 1 else 0)
              else (if float_gt pressure (float_of_int32 0) then 3 else 2)) \<and>
           calls dev' = calls dev @ [ResetError] @
             (if touches (touchpads ! nat touchpad_id) AND 1 = 0 \<and> float_gt pressure (float_of_int32 0) then
                [SendMultiTouchXY 0 0 device_x device_y, SendKey BTN_TOUCH KEY_PRESS, SendSynReport]
              else if touches (touchpads ! nat touchpad_id) AND 1 \<noteq> 0
                      \<and> \<not> float_gt pressure (float_of_int32 0) then
                [SendKey BTN_TOUCH KEY_RELEASE, SendMultiTouchLift 0, SendSynReport]
              else if device_x \<noteq> last_device_x (touchpads ! nat touchpad_id)
                      \<or> device_y \<noteq> last_device_y (touchpads ! nat touchpad_id) then
                [SendMultiTouchXY 0 0 device_x device_y, SendSynReport]
              else [])"
proof -
  note d = device_coordinates [OF assms(4-11)]
  from Touch_attached [OF assms, of GetError pressure] obtain st touchpads' touchpad' dev' where
    "Touch GetError touchpads touchpad_id x y pressure = Some (st, touchpads')"
    "touchpads' ! nat touchpad_id = touchpad'"
    "injector touchpad' = Some dev'"
    "touches touchpad' =
             (if touches (touchpads ! nat touchpad_id) AND 1 = 0
              then (if float_gt pressure (float_of_int32 0) then 1 else 0)
              else (if float_gt pressure (float_of_int32 0) then 3 else 2))"
    "calls dev' = calls dev @ [ResetError] @
             (if touches (touchpads ! nat touchpad_id) AND 1 = 0 \<and> float_gt pressure (float_of_int32 0) then
                [SendMultiTouchXY 0 0 (word_of_int \<lfloor>vx * 65536\<rfloor>) (word_of_int \<lfloor>vy * 65536\<rfloor>),
                 SendKey BTN_TOUCH KEY_PRESS, SendSynReport]
              else if touches (touchpads ! nat touchpad_id) AND 1 \<noteq> 0
                      \<and> \<not> float_gt pressure (float_of_int32 0) then
                [SendKey BTN_TOUCH KEY_RELEASE, SendMultiTouchLift 0, SendSynReport]
              else if word_of_int \<lfloor>vx * 65536\<rfloor> \<noteq> last_device_x (touchpads ! nat touchpad_id)
                      \<or> word_of_int \<lfloor>vy * 65536\<rfloor> \<noteq> last_device_y (touchpads ! nat touchpad_id) then
                [SendMultiTouchXY 0 0 (word_of_int \<lfloor>vx * 65536\<rfloor>) (word_of_int \<lfloor>vy * 65536\<rfloor>),
                 SendSynReport]
              else [])"
    by blast
  with d show ?thesis by blast
qed

text \<open>
  Claim C6. For a \<open>Touch\<close> that passes validation (an index in range, binary32
  coordinates in \<open>[0, 1)\<close>) on a slot with an attached injector, the stored last device
  position becomes the newly computed device coordinates, whatever the contact history:
  also when the contact ends and no position is sent.
\<close>

theorem Touch_updates_last_position:
  assumes "0 \<le> touchpad_id" "touchpad_id < int (length touchpads)"
    and "injector (touchpads ! nat touchpad_id) = Some dev"
    and "is_binary32 x" "float_val x = Some vx" "0 \<le> vx" "vx < 1"
    and "is_binary32 y" "float_val y = Some vy" "0 \<le> vy" "vy < 1"
  shows "\<exists>device_x device_y st touchpads'.
           float_to_int32 (float_mul x (float_of_int32 kWidth)) = Some device_x \<and>
           float_to_int32 (float_mul y (float_of_int32 kHeight)) = Some device_y \<and>
           Touch GetError touchpads touchpad_id x y pressure = Some (st, touchpads') \<and>
           last_device_x (touchpads' ! nat touchpad_id) = device_x \<and>
           last_device_y (touchpads' ! nat touchpad_id) = device_y"
proof -
  note d = device_coordinates [OF assms(4-11)]
  from Touch_attached [OF assms, of GetError pressure] obtain st touchpads' touchpad' where
    "Touch GetError touchpads touchpad_id x y pressure = Some (st, touchpads')"
    "touchpads' ! nat touchpad_id = touchpad'"
    "last_device_x touchpad' = word_of_int \<lfloor>vx * 65536\<rfloor>"
    "last_device_y touchpad' = word_of_int \<lfloor>vy * 65536\<rfloor>"
    by blast
  with d show ?thesis by blast
qed

text \<open>
  Claim C8. \<open>Touch\<close> with valid arguments on a slot without an injector returns the
  sequencing error after it has advanced the slot's contact history by the new sample;
  the last device position, the last button mask and every other slot stay as they were.
\<close>

theorem Touch_detached_advances_history:
  assumes "0 \<le> touchpad_id" "touchpad_id < int (length touchpads)"
    and "injector (touchpads ! nat touchpad_id) = None"
    and "is_binary32 x" "float_val x = Some vx" "0 \<le> vx" "vx < 1"
    and "is_binary32 y" "float_val y = Some vy" "0 \<le> vy" "vy < 1"
  shows "\<exists>touchpads'.
           Touch GetError touchpads touchpad_id x y pressure = Some (ERROR_SEQUENCING, touchpads') \<and>
           length touchpads' = length touchpads \<and>
           touches (touchpads' ! nat touchpad_id) =
             (if touches (touchpads ! nat touchpad_id) AND 1 = 0
              then (if float_gt pressure (float_of_int32 0) then 1 else 0)
              else (if float_gt pressure (float_of_int32 0) then 3 else 2)) \<and>
           last_device_x (touchpads' ! nat touchpad_id) = last_device_x (touchpads ! nat touchpad_id) \<and>
           last_device_y (touchpads' ! nat touchpad_id) = last_device_y (touchpads ! nat touchpad_id) \<and>
           last_motion_event_buttons (touchpads' ! nat touchpad_id)
             = last_motion_event_buttons (touchpads ! nat touchpad_id) \<and>
           injector (touchpads' ! nat touchpad_id) = None \<and>
           owned_injector (touchpads' ! nat touchpad_id) = owned_injector (touchpads ! nat touchpad_id) \<and>
           (\<forall>j. j \<noteq> nat touchpad_id \<longrightarrow> touchpads' ! j = touchpads ! j)"
proof -
  define touchpad where "touchpad = touchpads ! nat touchpad_id"
  define c where "c = float_gt pressure (Finite False 0 0)"
  define T :: "32 word" where "T = push_bit 1 (touches touchpad AND 1) OR (if c then 1 else 0)"
  have n: "nat touchpad_id < length touchpads" using assms(1,2) by simp
  have T: "T = (if touches touchpad AND 1 = 0 then (if c then 1 else 0) else (if c then 3 else 2))"
    unfolding T_def by (rule touches_cases)
  have r: "Touch GetError touchpads touchpad_id x y pressure =
             Some (ERROR_SEQUENCING, touchpads[nat touchpad_id := touchpad\<lparr>touches := T\<rparr>])"
    unfolding Touch_in_range [OF assms(1,2) assms(4-11)] T_def c_def touchpad_def Let_def
      assms(3) option.case
    by (rule refl)
  show ?thesis
    unfolding float_of_int32_0 touchpad_def [symmetric] c_def [symmetric] r
    using n assms(3) by (simp add: T touchpad_def)
qed


lemma half_quarter:
  "is_binary32 (Finite False 1 (-1))" "float_val (Finite False 1 (-1)) = Some (1 / 2)"
  "0 \<le> (1 / 2 :: rat)" "(1 / 2 :: rat) < 1"
  "is_binary32 (Finite False 1 (-2))" "float_val (Finite False 1 (-2)) = Some (1 / 4)"
  "0 \<le> (1 / 4 :: rat)" "(1 / 4 :: rat) < 1"
  by (simp_all add: magnitude_def power_int_minus)

lemma quarter_half:
  "is_binary32 (Finite False 1 (-2))" "float_val (Finite False 1 (-2)) = Some (1 / 4)"
  "0 \<le> (1 / 4 :: rat)" "(1 / 4 :: rat) < 1"
  "is_binary32 (Finite False 1 (-1))" "float_val (Finite False 1 (-1)) = Some (1 / 2)"
  "0 \<le> (1 / 2 :: rat)" "(1 / 2 :: rat) < 1"
  by (simp_all add: magnitude_def power_int_minus)

lemma device_half: "float_to_int32 (float_mul (Finite False 1 (-1)) (float_of_int32 kWidth)) = Some 32768"
  "float_to_int32 (float_mul (Finite False 1 (-1)) (float_of_int32 kHeight)) = Some 32768"
  by (simp_all add: float_eval)

lemma device_quarter: "float_to_int32 (float_mul (Finite False 1 (-2)) (float_of_int32 kWidth)) = Some 16384"
  "float_to_int32 (float_mul (Finite False 1 (-2)) (float_of_int32 kHeight)) = Some 16384"
  by (simp_all add: float_eval)

lemma pressure_one: "float_gt (Finite False 1 0) (float_of_int32 0) = True"
  by (simp add: float_eval)

lemma pressure_zero: "float_gt (Finite False 0 0) (float_of_int32 0) = False"
  by (simp add: float_eval)

theorem Touch_emission_sequences_witness:
  "\<exists>st touchpads' dev'.
      Touch always_OK attached_pad 0 (Finite False 1 (-1)) (Finite False 1 (-2)) (Finite False 1 0)
        = Some (st, touchpads') \<and>
      injector (touchpads' ! 0) = Some dev' \<and>
      touches (touchpads' ! 0) = 1 \<and>
      calls dev' = calls (configure 0 new_EvdevInjector)
         @ [ResetError, SendMultiTouchXY 0 0 32768 16384, SendKey BTN_TOUCH KEY_PRESS, SendSynReport]"
proof -
  have a: "(0::int) \<le> 0" "0 < int (length attached_pad)"
    unfolding attached_pad_eq by simp_all
  have b: "injector (attached_pad ! nat 0) = Some (configure 0 new_EvdevInjector)"
    unfolding attached_pad_eq by simp
  have t: "touches (attached_pad ! nat 0) AND 1 = 0"
    unfolding attached_pad_eq by simp
  from Touch_emission_sequences [OF a b half_quarter, of always_OK "Finite False 1 0"]
  show ?thesis
    unfolding device_half device_quarter t pressure_one by simp
qed

theorem Touch_updates_last_position_witness:
  "\<exists>st touchpads'.
      Touch always_OK pressed_pad 0 (Finite False 1 (-2)) (Finite False 1 (-1)) (Finite False 0 0)
        = Some (st, touchpads') \<and>
      last_device_x (touchpads' ! 0) = 16384 \<and> last_device_y (touchpads' ! 0) = 32768"
proof -
  have a: "(0::int) \<le> 0" "0 < int (length pressed_pad)"
    unfolding pressed_pad_def by simp_all
  have b: "injector (pressed_pad ! nat 0) = Some (invoke SendSynReport
                         (invoke (SendKey BTN_TOUCH KEY_PRESS)
                           (invoke (SendMultiTouchXY 0 0 32768 16384)
                             (invoke ResetError (configure 0 new_EvdevInjector)))))"
    unfolding pressed_pad_def by simp
  from Touch_updates_last_position [OF a b quarter_half, of always_OK "Finite False 0 0"]
  show ?thesis
    unfolding device_half device_quarter by simp
qed

theorem Touch_detached_advances_history_witness:
  "\<exists>touchpads'.
      Touch always_OK (Create 1) 0 (Finite False 1 (-1)) (Finite False 1 (-2)) (Finite False 1 0)
        = Some (ERROR_SEQUENCING, touchpads') \<and>
      touches (Create 1 ! 0) = 0 \<and> touches (touchpads' ! 0) = 1 \<and> touchpads' \<noteq> Create 1"
proof -
  have c: "Create 1 = [\<lparr>owned_injector = False, injector = None, last_device_x = INT32_MIN,
                         last_device_y = INT32_MIN, touches = 0, last_motion_event_buttons = 0\<rparr>]"
    by (simp add: Create_def Reset_def Reset_touchpad_def new_Touchpad_def)
  have a: "(0::int) \<le> 0" "0 < int (length (Create 1))"
    unfolding c by simp_all
  have b: "injector (Create 1 ! nat 0) = None"
    unfolding c by simp
  have t: "touches (Create 1 ! nat 0) AND 1 = 0" "touches (Create 1 ! 0) = 0"
    unfolding c by simp_all
  from Touch_detached_advances_history [OF a b half_quarter, of always_OK "Finite False 1 0"]
  obtain touchpads' where
    r: "Touch always_OK (Create 1) 0 (Finite False 1 (-1)) (Finite False 1 (-2)) (Finite False 1 0)
        = Some (ERROR_SEQUENCING, touchpads')"
    and h: "touches (touchpads' ! nat 0) =
             (if touches (Create 1 ! nat 0) AND 1 = 0
              then (if float_gt (Finite False 1 0) (float_of_int32 0) then 1 else 0)
              else (if float_gt (Finite False 1 0) (float_of_int32 0) then 3 else 2))"
    by blast
  from h have h1: "touches (touchpads' ! 0) = 1" unfolding t pressure_one by simp
  with t(2) have "touchpads' \<noteq> Create 1" by auto
  with r h1 t(2) show ?thesis by blast
qed


lemma Touch_pressed_pad:
  "Touch always_OK pressed_pad 0 (Finite False 1 (-2)) (Finite False 1 (-1)) (Finite False 0 0)
     = Some (Code 0, released_pad)"
  unfolding pressed_pad_def released_pad_def released_dev_def
  by (simp add: Touch_def float_eval Touch_switch_def always_OK_def)

lemma Touch_released_pad:
  "Touch always_OK released_pad 0 (Finite False 1 (-1)) (Finite False 1 (-2)) (Finite False 0 0)
     = Some (Code 0, hover_pad)"
  unfolding released_pad_def hover_pad_def
  by (simp add: Touch_def float_eval Touch_switch_def always_OK_def)

lemma reachable_released_pad: "reachable always_OK released_pad"
proof -
  have "reachable always_OK (Create 1)" by (rule reachable_Create)
  then have "reachable always_OK attached_pad"
    unfolding attached_pad_def by (rule reachable_Attach)
  then have "reachable always_OK pressed_pad"
    using Touch_attached_pad by (rule reachable_Touch)
  then show ?thesis using Touch_pressed_pad by (rule reachable_Touch)
qed

lemma last_emitted_released_dev:
  "last_emitted_position (calls released_dev) = Some (32768, 16384)"
  by (simp add: released_dev_def calls_invoke configure_def new_EvdevInjector_def)

text \<open>
  Claim C1 as stated fails where it compares with the last emitted position. After a press
  at \<open>(0.5, 0.25)\<close> and a release at \<open>(0.25, 0.5)\<close>, which stores its position and sends
  none, a hover at \<open>(0.5, 0.25)\<close> (history 00) sends the position \<open>(32768, 16384)\<close> and a
  barrier, though that is the position the injector received last.
\<close>

theorem Touch_emission_sequences_counterexample:
  "reachable always_OK released_pad \<and>
   injector (released_pad ! 0) = Some released_dev \<and>
   touches (released_pad ! 0) AND 1 = 0 \<and>
   \<not> float_gt (Finite False 0 0) (float_of_int32 0) \<and>
   float_to_int32 (float_mul (Finite False 1 (-1)) (float_of_int32 kWidth)) = Some 32768 \<and>
   float_to_int32 (float_mul (Finite False 1 (-2)) (float_of_int32 kHeight)) = Some 16384 \<and>
   last_emitted_position (calls released_dev) = Some (32768, 16384) \<and>
   Touch always_OK released_pad 0 (Finite False 1 (-1)) (Finite False 1 (-2)) (Finite False 0 0)
     = Some (Code 0, hover_pad) \<and>
   touches (hover_pad ! 0) = 0 \<and>
   injector (hover_pad ! 0)
     = Some (invoke SendSynReport
              (invoke (SendMultiTouchXY 0 0 32768 16384) (invoke ResetError released_dev)))"
proof -
  have a: "injector (released_pad ! 0) = Some released_dev"
    "touches (released_pad ! 0) AND 1 = 0" by (simp_all add: released_pad_def)
  have b: "touches (hover_pad ! 0) = 0"
    "injector (hover_pad ! 0)
     = Some (invoke SendSynReport
              (invoke (SendMultiTouchXY 0 0 32768 16384) (invoke ResetError released_dev)))"
    by (simp_all add: hover_pad_def)
  have c: "\<not> float_gt (Finite False 0 0) (float_of_int32 0)"
    unfolding pressure_zero by simp
  show ?thesis
    using reachable_released_pad a b c device_half(1) device_quarter(2)
      last_emitted_released_dev Touch_released_pad
    by (intro conjI)
qed


section \<open>The device coordinates of Touch\<close>

text \<open>
  Claim C3. Binary32 coordinates \<open>x\<close> and \<open>y\<close> whose values \<open>vx\<close> and \<open>vy\<close> lie in
  \<open>[0, 1)\<close> pass the range test of \<open>Touch\<close>. The device coordinates that \<open>Touch\<close> computes
  from them are \<open>floor (vx * 65536)\<close> and \<open>floor (vy * 65536)\<close>, within \<open>[0, kWidth - 1]\<close>
  and \<open>[0, kHeight - 1]\<close>, where \<open>kWidth = kHeight = 65536\<close>: they are the values that
  \<open>Touch\<close> on an attached slot stores as the last device position and passes to every
  \<open>SendMultiTouchXY\<close> it calls.
\<close>

theorem Touch_device_coordinates:
  assumes "is_binary32 x" "float_val x = Some vx" "0 \<le> vx" "vx < 1"
    and "is_binary32 y" "float_val y = Some vy" "0 \<le> vy" "vy < 1"
  shows "\<exists>device_x device_y.
           float_to_int32 (float_mul x (float_of_int32 kWidth)) = Some device_x \<and>
           float_to_int32 (float_mul y (float_of_int32 kHeight)) = Some device_y \<and>
           sint device_x = \<lfloor>vx * 65536\<rfloor> \<and> sint device_y = \<lfloor>vy * 65536\<rfloor> \<and>
           sint kWidth = 65536 \<and> sint kHeight = 65536 \<and>
           0 \<le> sint device_x \<and> sint device_x \<le> sint kWidth - 1 \<and>
           0 \<le> sint device_y \<and> sint device_y \<le> sint kHeight - 1 \<and>
           (\<forall>GetError touchpads touchpad_id pressure.
              0 \<le> touchpad_id \<and> touchpad_id < int (length touchpads) \<longrightarrow>
              (\<exists>st touchpads'.
                 Touch GetError touchpads touchpad_id x y pressure = Some (st, touchpads') \<and>
                 st \<noteq> EINVAL)) \<and>
           (\<forall>GetError touchpads touchpad_id pressure dev.
              0 \<le> touchpad_id \<and> touchpad_id < int (length touchpads) \<and>
              injector (touchpads ! nat touchpad_id) = Some dev \<longrightarrow>
              (\<exists>st touchpads' dev'.
                 Touch GetError touchpads touchpad_id x y pressure = Some (st, touchpads') \<and>
                 last_device_x (touchpads' ! nat touchpad_id) = device_x \<and>
                 last_device_y (touchpads' ! nat touchpad_id) = device_y \<and>
                 injector (touchpads' ! nat touchpad_id) = Some dev' \<and>
                 calls dev' = calls dev @ [ResetError] @
                   (if touches (touchpads ! nat touchpad_id) AND 1 = 0
                       \<and> float_gt pressure (float_of_int32 0) then
                      [SendMultiTouchXY 0 0 device_x device_y,
                       SendKey BTN_TOUCH KEY_PRESS, SendSynReport]
                    else if touches (touchpads ! nat touchpad_id) AND 1 \<noteq> 0
                            \<and> \<not> float_gt pressure (float_of_int32 0) then
                      [SendKey BTN_TOUCH KEY_RELEASE, SendMultiTouchLift 0, SendSynReport]
                    else if device_x \<noteq> last_device_x (touchpads ! nat touchpad_id)
                            \<or> device_y \<noteq> last_device_y (touchpads ! nat touchpad_id) then
                      [SendMultiTouchXY 0 0 device_x device_y, SendSynReport]
                    else [])))"
proof -
  let ?dx = "word_of_int \<lfloor>vx * 65536\<rfloor> :: 32 word"
  let ?dy = "word_of_int \<lfloor>vy * 65536\<rfloor> :: 32 word"
  have cx: "float_to_int32 (float_mul x (float_of_int32 kWidth)) = Some ?dx"
    unfolding float_of_int32_kWidth using assms(1-4) by (rule scale_coordinate)
  have cy: "float_to_int32 (float_mul y (float_of_int32 kHeight)) = Some ?dy"
    unfolding float_of_int32_kHeight using assms(5-8) by (rule scale_coordinate)
  note bx = floor_coordinate [OF assms(3,4)]
  note by' = floor_coordinate [OF assms(7,8)]
  have sx: "sint ?dx = \<lfloor>vx * 65536\<rfloor>"
    using bx by (rule sint_coordinate)
  have sy: "sint ?dy = \<lfloor>vy * 65536\<rfloor>"
    using by' by (rule sint_coordinate)
  have k: "sint kWidth = 65536" "sint kHeight = 65536"
    by (simp_all add: kWidth_def kHeight_def)
  have t: "\<forall>GetError touchpads touchpad_id pressure.
              0 \<le> touchpad_id \<and> touchpad_id < int (length touchpads) \<longrightarrow>
              (\<exists>st touchpads'.
                 Touch GetError touchpads touchpad_id x y pressure = Some (st, touchpads') \<and>
                 st \<noteq> EINVAL)"
    using Touch_accepts [OF _ _ assms] by blast
  have u: "\<forall>GetError touchpads touchpad_id pressure dev.
              0 \<le> touchpad_id \<and> touchpad_id < int (length touchpads) \<and>
              injector (touchpads ! nat touchpad_id) = Some dev \<longrightarrow>
              (\<exists>st touchpads' dev'.
                 Touch GetError touchpads touchpad_id x y pressure = Some (st, touchpads') \<and>
                 last_device_x (touchpads' ! nat touchpad_id) = ?dx \<and>
                 last_device_y (touchpads' ! nat touchpad_id) = ?dy \<and>
                 injector (touchpads' ! nat touchpad_id) = Some dev' \<and>
                 calls dev' = calls dev @ [ResetError] @
                   (if touches (touchpads ! nat touchpad_id) AND 1 = 0
                       \<and> float_gt pressure (float_of_int32 0) then
                      [SendMultiTouchXY 0 0 ?dx ?dy,
                       SendKey BTN_TOUCH KEY_PRESS, SendSynReport]
                    else if touches (touchpads ! nat touchpad_id) AND 1 \<noteq> 0
                            \<and> \<not> float_gt pressure (float_of_int32 0) then
                      [SendKey BTN_TOUCH KEY_RELEASE, SendMultiTouchLift 0, SendSynReport]
                    else if ?dx \<noteq> last_device_x (touchpads ! nat touchpad_id)
                            \<or> ?dy \<noteq> last_device_y (touchpads ! nat touchpad_id) then
                      [SendMultiTouchXY 0 0 ?dx ?dy, SendSynReport]
                    else []))"
  proof (intro allI impI)
    fix GetError :: "EvdevInjector \<Rightarrow> int" and touchpads :: "Touchpad list"
      and touchpad_id :: int and pressure :: float and dev :: EvdevInjector
    assume h: "0 \<le> touchpad_id \<and> touchpad_id < int (length touchpads) \<and>
              injector (touchpads ! nat touchpad_id) = Some dev"
    then have h1: "0 \<le> touchpad_id" and h2: "touchpad_id < int (length touchpads)"
      and h3: "injector (touchpads ! nat touchpad_id) = Some dev" by blast+
    from Touch_attached [OF h1 h2 h3 assms, of GetError pressure]
    obtain st touchpads' touchpad' dev' where
      "Touch GetError touchpads touchpad_id x y pressure = Some (st, touchpads')"
      "touchpads' ! nat touchpad_id = touchpad'"
      "injector touchpad' = Some dev'"
      "last_device_x touchpad' = ?dx"
      "last_device_y touchpad' = ?dy"
      "calls dev' = calls dev @ [ResetError] @
             (if touches (touchpads ! nat touchpad_id) AND 1 = 0 \<and> float_gt pressure (float_of_int32 0) then
                [SendMultiTouchXY 0 0 ?dx ?dy,
                 SendKey BTN_TOUCH KEY_PRESS, SendSynReport]
              else if touches (touchpads ! nat touchpad_id) AND 1 \<noteq> 0
                      \<and> \<not> float_gt pressure (float_of_int32 0) then
                [SendKey BTN_TOUCH KEY_RELEASE, SendMultiTouchLift 0, SendSynReport]
              else if ?dx \<noteq> last_device_x (touchpads ! nat touchpad_id)
                      \<or> ?dy \<noteq> last_device_y (touchpads ! nat touchpad_id) then
                [SendMultiTouchXY 0 0 ?dx ?dy, SendSynReport]
              else [])"
      by blast
    then show "\<exists>st touchpads' dev'.
                 Touch GetError touchpads touchpad_id x y pressure = Some (st, touchpads') \<and>
                 last_device_x (touchpads' ! nat touchpad_id) = ?dx \<and>
                 last_device_y (touchpads' ! nat touchpad_id) = ?dy \<and>
                 injector (touchpads' ! nat touchpad_id) = Some dev' \<and>
                 calls dev' = calls dev @ [ResetError] @
                   (if touches (touchpads ! nat touchpad_id) AND 1 = 0
                       \<and> float_gt pressure (float_of_int32 0) then
                      [SendMultiTouchXY 0 0 ?dx ?dy,
                       SendKey BTN_TOUCH KEY_PRESS, SendSynReport]
                    else if touches (touchpads ! nat touchpad_id) AND 1 \<noteq> 0
                            \<and> \<not> float_gt pressure (float_of_int32 0) then
                      [SendKey BTN_TOUCH KEY_RELEASE, SendMultiTouchLift 0, SendSynReport]
                    else if ?dx \<noteq> last_device_x (touchpads ! nat touchpad_id)
                            \<or> ?dy \<noteq> last_device_y (touchpads ! nat touchpad_id) then
                      [SendMultiTouchXY 0 0 ?dx ?dy, SendSynReport]
                    else [])"
      by blast
  qed
  show ?thesis
  proof (rule exI [of _ ?dx], rule exI [of _ ?dy], intro conjI)
    show "float_to_int32 (float_mul x (float_of_int32 kWidth)) = Some ?dx" by (rule cx)
    show "float_to_int32 (float_mul y (float_of_int32 kHeight)) = Some ?dy" by (rule cy)
    show "sint ?dx = \<lfloor>vx * 65536\<rfloor>" by (rule sx)
    show "sint ?dy = \<lfloor>vy * 65536\<rfloor>" by (rule sy)
    show "sint kWidth = 65536" "sint kHeight = 65536" by (rule k)+
    show "0 \<le> sint ?dx" unfolding sx by (rule bx(1))
    show "sint ?dx \<le> sint kWidth - 1" unfolding sx k using bx(2) by simp
    show "0 \<le> sint ?dy" unfolding sy by (rule by'(1))
    show "sint ?dy \<le> sint kHeight - 1" unfolding sy k using by'(2) by simp
    show "\<forall>GetError touchpads touchpad_id pressure.
              0 \<le> touchpad_id \<and> touchpad_id < int (length touchpads) \<longrightarrow>
              (\<exists>st touchpads'.
                 Touch GetError touchpads touchpad_id x y pressure = Some (st, touchpads') \<and>
                 st \<noteq> EINVAL)" by (rule t)
  next
    show "\<forall>GetError touchpads touchpad_id pressure dev.
              0 \<le> touchpad_id \<and> touchpad_id < int (length touchpads) \<and>
              injector (touchpads ! nat touchpad_id) = Some dev \<longrightarrow>
              (\<exists>st touchpads' dev'.
                 Touch GetError touchpads touchpad_id x y pressure = Some (st, touchpads') \<and>
                 last_device_x (touchpads' ! nat touchpad_id) = ?dx \<and>
                 last_device_y (touchpads' ! nat touchpad_id) = ?dy \<and>
                 injector (touchpads' ! nat touchpad_id) = Some dev' \<and>
                 calls dev' = calls dev @ [ResetError] @
                   (if touches (touchpads ! nat touchpad_id) AND 1 = 0
                       \<and> float_gt pressure (float_of_int32 0) then
                      [SendMultiTouchXY 0 0 ?dx ?dy,
                       SendKey BTN_TOUCH KEY_PRESS, SendSynReport]
                    else if touches (touchpads ! nat touchpad_id) AND 1 \<noteq> 0
                            \<and> \<not> float_gt pressure (float_of_int32 0) then
                      [SendKey BTN_TOUCH KEY_RELEASE, SendMultiTouchLift 0, SendSynReport]
                    else if ?dx \<noteq> last_device_x (touchpads ! nat touchpad_id)
                            \<or> ?dy \<noteq> last_device_y (touchpads ! nat touchpad_id) then
                      [SendMultiTouchXY 0 0 ?dx ?dy, SendSynReport]
                    else []))" by (rule u)
  qed
qed


theorem Touch_device_coordinates_witness:
  "is_binary32 (Finite False 1 (-1)) \<and> float_val (Finite False 1 (-1)) = Some (1 / 2)
   \<and> is_binary32 (Finite False 16777215 (-24))
   \<and> float_val (Finite False 16777215 (-24)) = Some (16777215 / 16777216)
   \<and> float_to_int32 (float_mul (Finite False 1 (-1)) (float_of_int32 kWidth)) = Some 32768
   \<and> float_to_int32 (float_mul (Finite False 16777215 (-24)) (float_of_int32 kHeight)) = Some 65535
   \<and> injector (attached_pad ! 0) = Some (configure 0 new_EvdevInjector)
   \<and> (\<exists>st touchpads' dev'.
         Touch always_OK attached_pad 0 (Finite False 1 (-1)) (Finite False 16777215 (-24))
               (Finite False 1 0) = Some (st, touchpads') \<and>
         st \<noteq> EINVAL \<and>
         last_device_x (touchpads' ! 0) = 32768 \<and>
         last_device_y (touchpads' ! 0) = 65535 \<and>
         injector (touchpads' ! 0) = Some dev' \<and>
         calls dev' = calls (configure 0 new_EvdevInjector)
            @ [ResetError, SendMultiTouchXY 0 0 32768 65535, SendKey BTN_TOUCH KEY_PRESS,
               SendSynReport])"
proof -
  have a: "is_binary32 (Finite False 1 (-1))" by simp
  have b: "float_val (Finite False 1 (-1)) = Some (1 / 2)" by (simp add: magnitude_def)
  have c: "is_binary32 (Finite False 16777215 (-24))" by simp
  have d: "float_val (Finite False 16777215 (-24)) = Some (16777215 / 16777216)"
    by (simp add: magnitude_def power_int_minus)
  have e: "\<lfloor>(1 / 2 :: rat) * 65536\<rfloor> = 32768" by simp
  have f: "\<lfloor>(16777215 / 16777216 :: rat) * 65536\<rfloor> = 65535" by (simp add: floor_unique)
  have g: "(0::int) \<le> 0 \<and> 0 < int (length attached_pad)" unfolding attached_pad_eq by simp
  have i: "injector (attached_pad ! nat 0) = Some (configure 0 new_EvdevInjector)"
    unfolding attached_pad_eq by simp
  have t: "touches (attached_pad ! nat 0) AND 1 = 0"
    unfolding attached_pad_eq by simp
  have r: "(0 :: rat) \<le> 1 / 2" "(1 / 2 :: rat) < 1" "(0 :: rat) \<le> 16777215 / 16777216"
    "(16777215 / 16777216 :: rat) < 1" by simp_all
  from Touch_device_coordinates [OF a b r(1,2) c d r(3,4)] obtain device_x device_y where
    1: "float_to_int32 (float_mul (Finite False 1 (-1)) (float_of_int32 kWidth)) = Some device_x"
       "float_to_int32 (float_mul (Finite False 16777215 (-24)) (float_of_int32 kHeight)) = Some device_y"
    and 2: "sint device_x = \<lfloor>(1 / 2 :: rat) * 65536\<rfloor>"
       "sint device_y = \<lfloor>(16777215 / 16777216 :: rat) * 65536\<rfloor>"
    and 3: "\<forall>GetError touchpads touchpad_id pressure.
              0 \<le> touchpad_id \<and> touchpad_id < int (length touchpads) \<longrightarrow>
              (\<exists>st touchpads'.
                 Touch GetError touchpads touchpad_id (Finite False 1 (-1))
                   (Finite False 16777215 (-24)) pressure = Some (st, touchpads') \<and>
                 st \<noteq> EINVAL)"
    and 4: "\<forall>GetError touchpads touchpad_id pressure dev.
              0 \<le> touchpad_id \<and> touchpad_id < int (length touchpads) \<and>
              injector (touchpads ! nat touchpad_id) = Some dev \<longrightarrow>
              (\<exists>st touchpads' dev'.
                 Touch GetError touchpads touchpad_id (Finite False 1 (-1))
                   (Finite False 16777215 (-24)) pressure = Some (st, touchpads') \<and>
                 last_device_x (touchpads' ! nat touchpad_id) = device_x \<and>
                 last_device_y (touchpads' ! nat touchpad_id) = device_y \<and>
                 injector (touchpads' ! nat touchpad_id) = Some dev' \<and>
                 calls dev' = calls dev @ [ResetError] @
                   (if touches (touchpads ! nat touchpad_id) AND 1 = 0
                       \<and> float_gt pressure (float_of_int32 0) then
                      [SendMultiTouchXY 0 0 device_x device_y,
                       SendKey BTN_TOUCH KEY_PRESS, SendSynReport]
                    else if touches (touchpads ! nat touchpad_id) AND 1 \<noteq> 0
                            \<and> \<not> float_gt pressure (float_of_int32 0) then
                      [SendKey BTN_TOUCH KEY_RELEASE, SendMultiTouchLift 0, SendSynReport]
                    else if device_x \<noteq> last_device_x (touchpads ! nat touchpad_id)
                            \<or> device_y \<noteq> last_device_y (touchpads ! nat touchpad_id) then
                      [SendMultiTouchXY 0 0 device_x device_y, SendSynReport]
                    else []))"
    by blast
  from 2(1) have "word_of_int (sint device_x) = (word_of_int 32768 :: 32 word)"
    unfolding e by simp
  then have dx: "device_x = 32768" by simp
  from 2(2) have "word_of_int (sint device_y) = (word_of_int 65535 :: 32 word)"
    unfolding f by simp
  then have dy: "device_y = 65535" by simp
  from 3 g obtain st touchpads' where
    5: "Touch always_OK attached_pad 0 (Finite False 1 (-1)) (Finite False 16777215 (-24))
               (Finite False 1 0) = Some (st, touchpads')" "st \<noteq> EINVAL"
    by blast
  from 4 g i obtain st2 touchpads2 dev' where
    6: "Touch always_OK attached_pad 0 (Finite False 1 (-1)) (Finite False 16777215 (-24))
               (Finite False 1 0) = Some (st2, touchpads2)"
       "last_device_x (touchpads2 ! nat 0) = device_x"
       "last_device_y (touchpads2 ! nat 0) = device_y"
       "injector (touchpads2 ! nat 0) = Some dev'"
       "calls dev' = calls (configure 0 new_EvdevInjector) @ [ResetError] @
                   (if touches (attached_pad ! nat 0) AND 1 = 0
                       \<and> float_gt (Finite False 1 0) (float_of_int32 0) then
                      [SendMultiTouchXY 0 0 device_x device_y,
                       SendKey BTN_TOUCH KEY_PRESS, SendSynReport]
                    else if touches (attached_pad ! nat 0) AND 1 \<noteq> 0
                            \<and> \<not> float_gt (Finite False 1 0) (float_of_int32 0) then
                      [SendKey BTN_TOUCH KEY_RELEASE, SendMultiTouchLift 0, SendSynReport]
                    else if device_x \<noteq> last_device_x (attached_pad ! nat 0)
                            \<or> device_y \<noteq> last_device_y (attached_pad ! nat 0) then
                      [SendMultiTouchXY 0 0 device_x device_y, SendSynReport]
                    else [])"
    by blast
  from 5 6(1) have same: "st2 = st" "touchpads2 = touchpads'" by simp_all
  have cl: "calls dev' = calls (configure 0 new_EvdevInjector)
            @ [ResetError, SendMultiTouchXY 0 0 32768 65535, SendKey BTN_TOUCH KEY_PRESS,
               SendSynReport]"
    using 6(5) unfolding t pressure_one dx dy by simp
  have i0: "injector (attached_pad ! 0) = Some (configure 0 new_EvdevInjector)"
    using i by simp
  have "\<exists>st touchpads' dev'.
         Touch always_OK attached_pad 0 (Finite False 1 (-1)) (Finite False 16777215 (-24))
               (Finite False 1 0) = Some (st, touchpads') \<and>
         st \<noteq> EINVAL \<and>
         last_device_x (touchpads' ! 0) = 32768 \<and>
         last_device_y (touchpads' ! 0) = 65535 \<and>
         injector (touchpads' ! 0) = Some dev' \<and>
         calls dev' = calls (configure 0 new_EvdevInjector)
            @ [ResetError, SendMultiTouchXY 0 0 32768 65535, SendKey BTN_TOUCH KEY_PRESS,
               SendSynReport]"
    using 5 6(2-4) cl unfolding same dx dy by auto
  with a b c d 1 i0 show ?thesis unfolding dx dy by blast
qed


section \<open>Operations on a slot without an injector\<close>

lemma Create_1:
  "Create 1 = [\<lparr>owned_injector = False, injector = None, last_device_x = INT32_MIN,
                 last_device_y = INT32_MIN, touches = 0, last_motion_event_buttons = 0\<rparr>]"
  by (simp add: Create_def Reset_def Reset_touchpad_def new_Touchpad_def)

lemma Scroll_detached:
  assumes "0 \<le> touchpad_id" "touchpad_id < int (length touchpads)"
    and "injector (touchpads ! nat touchpad_id) = None"
    and "float_val x = Some vx" "-1 \<le> vx" "vx \<le> 1"
    and "float_val y = Some vy" "-1 \<le> vy" "vy \<le> 1"
  shows "Scroll GetError touchpads touchpad_id x y = Some (ERROR_SEQUENCING, touchpads)"
proof -
  have rx: "\<not> float_lt x (Finite True 1 0)" "\<not> float_gt x (Finite False 1 0)"
    using float_lt_minus_one [OF assms(4)] float_gt_one [OF assms(4)] assms(5,6) by auto
  have ry: "\<not> float_lt y (Finite True 1 0)" "\<not> float_gt y (Finite False 1 0)"
    using float_lt_minus_one [OF assms(7)] float_gt_one [OF assms(7)] assms(8,9) by auto
  have idx: "\<not> (touchpad_id < 0 \<or> int (length touchpads) \<le> touchpad_id)"
    using assms(1,2) by simp
  show ?thesis
    unfolding Scroll_def using idx rx ry
    by (simp only: assms(3) if_False option.case Let_def simp_thms)
qed

lemma xor_eq_0: "(a XOR b = 0) = (a = b)" for a b :: "32 word"
proof
  assume h: "a XOR b = 0"
  have "b = a XOR (a XOR b)" by (simp add: xor.assoc [symmetric])
  also have "\<dots> = a" unfolding h by simp
  finally show "a = b" by simp
next
  assume "a = b"
  then show "a XOR b = 0" by simp
qed

lemma ButtonState_detached:
  assumes "0 \<le> touchpad_id" "touchpad_id < int (length touchpads)"
    and "injector (touchpads ! nat touchpad_id) = None"
    and "buttons AND NOT AMOTION_EVENT_BUTTON_BACK = 0"
  shows "ButtonState GetError touchpads touchpad_id buttons =
           (if buttons = last_motion_event_buttons (touchpads ! nat touchpad_id)
            then Code 0 else ERROR_SEQUENCING, touchpads)"
proof -
  have x: "(last_motion_event_buttons (touchpads ! nat touchpad_id) XOR buttons = 0)
             = (buttons = last_motion_event_buttons (touchpads ! nat touchpad_id))"
    unfolding xor_eq_0 by (rule eq_commute)
  show ?thesis
    using assms by (simp add: ButtonState_def Let_def x)
qed

text \<open>
  Claim C2, amended. On a slot in range without an injector, with arguments in range:
  \<open>Touch\<close> and \<open>Scroll\<close> return the sequencing error; \<open>ButtonState\<close> returns it when the
  mask differs from the slot's stored mask, and returns 0 when the mask equals it. None of
  the three attaches or calls an injector: every slot's injector is as it was.
\<close>

theorem detached_slot_operations:
  assumes "0 \<le> touchpad_id" "touchpad_id < int (length touchpads)"
    and "injector (touchpads ! nat touchpad_id) = None"
    and "is_binary32 x" "float_val x = Some vx" "0 \<le> vx" "vx < 1"
    and "is_binary32 y" "float_val y = Some vy" "0 \<le> vy" "vy < 1"
    and "float_val dx = Some wx" "-1 \<le> wx" "wx \<le> 1"
    and "float_val dy = Some wy" "-1 \<le> wy" "wy \<le> 1"
    and "buttons AND NOT AMOTION_EVENT_BUTTON_BACK = 0"
  shows "(\<exists>touchpads'.
            Touch GetError touchpads touchpad_id x y pressure = Some (ERROR_SEQUENCING, touchpads') \<and>
            map injector touchpads' = map injector touchpads) \<and>
         Scroll GetError touchpads touchpad_id dx dy = Some (ERROR_SEQUENCING, touchpads) \<and>
         ButtonState GetError touchpads touchpad_id buttons =
           (if buttons = last_motion_event_buttons (touchpads ! nat touchpad_id)
            then Code 0 else ERROR_SEQUENCING, touchpads)"
proof (intro conjI)
  have n: "nat touchpad_id < length touchpads" using assms(1,2) by simp
  define touchpad1 where "touchpad1 = (touchpads ! nat touchpad_id)\<lparr>touches :=
             push_bit 1 (touches (touchpads ! nat touchpad_id) AND 1)
               OR (if float_gt pressure (Finite False 0 0) then 1 else 0)\<rparr>"
  have r: "Touch GetError touchpads touchpad_id x y pressure =
             Some (ERROR_SEQUENCING, touchpads[nat touchpad_id := touchpad1])"
    unfolding Touch_in_range [OF assms(1,2) assms(4-11)] touchpad1_def Let_def
      assms(3) option.case
    by (rule refl)
  have "injector touchpad1 = injector (touchpads ! nat touchpad_id)"
    by (simp add: touchpad1_def)
  then have "map injector (touchpads[nat touchpad_id := touchpad1]) = map injector touchpads"
    using n by (simp add: map_update) (metis list_update_id nth_map)
  with r show "\<exists>touchpads'.
            Touch GetError touchpads touchpad_id x y pressure = Some (ERROR_SEQUENCING, touchpads') \<and>
            map injector touchpads' = map injector touchpads" by blast
  show "Scroll GetError touchpads touchpad_id dx dy = Some (ERROR_SEQUENCING, touchpads)"
    using assms(1-3) assms(12-17) by (rule Scroll_detached)
  show "ButtonState GetError touchpads touchpad_id buttons =
           (if buttons = last_motion_event_buttons (touchpads ! nat touchpad_id)
            then Code 0 else ERROR_SEQUENCING, touchpads)"
    using assms(1-3) assms(18) by (rule ButtonState_detached)
qed

text \<open>
  Claim C2 as stated fails: on a new manager, whose slot has no injector, \<open>ButtonState\<close>
  with the mask 0 (no unrecognized bit) returns 0 and not the sequencing error.
\<close>

theorem ButtonState_detached_counterexample:
  "injector (Create 1 ! 0) = None \<and>
   (0 :: 32 word) AND NOT AMOTION_EVENT_BUTTON_BACK = 0 \<and>
   ButtonState always_OK (Create 1) 0 0 = (Code 0, Create 1) \<and>
   fst (ButtonState always_OK (Create 1) 0 0) \<noteq> ERROR_SEQUENCING"
  unfolding Create_1 by (simp add: ButtonState_def Let_def)

theorem detached_slot_operations_witness:
  "(\<exists>touchpads'.
      Touch always_OK (Create 1) 0 (Finite False 1 (-1)) (Finite False 1 (-2)) (Finite False 1 0)
        = Some (ERROR_SEQUENCING, touchpads') \<and>
      map injector touchpads' = map injector (Create 1)) \<and>
   Scroll always_OK (Create 1) 0 (Finite False 1 (-1)) (Finite True 1 0)
     = Some (ERROR_SEQUENCING, Create 1) \<and>
   ButtonState always_OK (Create 1) 0 AMOTION_EVENT_BUTTON_BACK = (ERROR_SEQUENCING, Create 1)"
proof -
  have a: "(0::int) \<le> 0" "0 < int (length (Create 1))"
    unfolding Create_1 by simp_all
  have b: "injector (Create 1 ! nat 0) = None"
    unfolding Create_1 by simp
  have d: "float_val (Finite False 1 (-1)) = Some (1 / 2)" "-1 \<le> (1 / 2 :: rat)" "(1 / 2 :: rat) \<le> 1"
    "float_val (Finite True 1 0) = Some (-1)" "-1 \<le> (-1 :: rat)" "(-1 :: rat) \<le> 1"
    by (simp_all add: magnitude_def power_int_minus)
  have m: "AMOTION_EVENT_BUTTON_BACK AND NOT AMOTION_EVENT_BUTTON_BACK = 0" by simp
  have l: "(AMOTION_EVENT_BUTTON_BACK = last_motion_event_buttons (Create 1 ! nat 0)) = False"
    unfolding Create_1 by (simp add: AMOTION_EVENT_BUTTON_BACK_def)
  from detached_slot_operations [OF a b half_quarter d m, of always_OK "Finite False 1 0"]
  show ?thesis unfolding l by simp
qed


section \<open>The stored button mask\<close>

lemma map_update_same:
  assumes "f y = f (xs ! i)"
  shows "map f (xs[i := y]) = map f xs"
proof (cases "i < length xs")
  case True
  with assms show ?thesis by (simp add: map_update) (metis list_update_id nth_map)
next
  case False
  then show ?thesis by (simp add: not_less list_update_beyond)
qed

lemma Touch_buttons:
  assumes "Touch GetError touchpads touchpad_id x y pressure = Some (st, touchpads')"
  shows "map last_motion_event_buttons touchpads' = map last_motion_event_buttons touchpads"
  using assms
  by (auto simp: Touch_def Let_def map_update_same split: if_splits option.splits)

lemma Scroll_buttons:
  assumes "Scroll GetError touchpads touchpad_id x y = Some (st, touchpads')"
  shows "map last_motion_event_buttons touchpads' = map last_motion_event_buttons touchpads"
  using assms
  by (auto simp: Scroll_def Let_def map_update_same split: if_splits option.splits)

lemma ButtonState_buttons:
  assumes "ButtonState GetError touchpads touchpad_id buttons = (st, touchpads')"
  shows "map last_motion_event_buttons touchpads' = map last_motion_event_buttons touchpads
         \<or> (buttons AND NOT AMOTION_EVENT_BUTTON_BACK = 0 \<and>
            map last_motion_event_buttons touchpads'
              = (map last_motion_event_buttons touchpads)[nat touchpad_id := buttons])"
  using assms
  by (auto simp: ButtonState_def Let_def map_update split: if_splits option.splits)

lemma Attach_loop_length:
  "length (snd (Attach_loop GetError i status touchpads)) = length touchpads"
  by (induction touchpads arbitrary: i status) (simp_all add: Let_def split_beta)

lemma Attach_loop_nth:
  "k < length touchpads \<Longrightarrow>
   snd (Attach_loop GetError i status touchpads) ! k = Attach_touchpad (i + k) (touchpads ! k)"
proof (induction touchpads arbitrary: i status k)
  case Nil
  then show ?case by simp
next
  case (Cons touchpad rest)
  show ?case
  proof (cases k)
    case 0
    then show ?thesis by (simp add: Let_def split_beta)
  next
    case (Suc k')
    with Cons.prems have "k' < length rest" by simp
    from Cons.IH [OF this] Suc show ?thesis by (simp add: Let_def split_beta)
  qed
qed

lemma Attach_length: "length (snd (Attach GetError touchpads)) = length touchpads"
  by (simp add: Attach_def split_beta Attach_loop_length)

lemma Attach_nth:
  "k < length touchpads \<Longrightarrow> snd (Attach GetError touchpads) ! k = Attach_touchpad k (touchpads ! k)"
  by (simp add: Attach_def split_beta Attach_loop_nth)

lemma Attach_touchpad_fields:
  "last_device_x (Attach_touchpad i touchpad) = last_device_x touchpad"
  "last_device_y (Attach_touchpad i touchpad) = last_device_y touchpad"
  "touches (Attach_touchpad i touchpad) = touches touchpad"
  "last_motion_event_buttons (Attach_touchpad i touchpad) = last_motion_event_buttons touchpad"
  by (simp_all add: Attach_touchpad_def Let_def split: option.splits)

lemma Attach_buttons:
  "map last_motion_event_buttons (snd (Attach GetError touchpads)) = map last_motion_event_buttons touchpads"
  by (rule nth_equalityI) (simp_all add: Attach_length Attach_nth Attach_touchpad_fields)

lemma Reset_buttons: "touchpad \<in> set (Reset touchpads) \<Longrightarrow> last_motion_event_buttons touchpad = 0"
  by (auto simp: Reset_def Reset_touchpad_def)

lemma Create_buttons: "touchpad \<in> set (Create n) \<Longrightarrow> last_motion_event_buttons touchpad = 0"
  unfolding Create_def by (rule Reset_buttons)

lemma recognized_update:
  assumes "recognized masks" "b AND NOT AMOTION_EVENT_BUTTON_BACK = 0"
  shows "recognized (masks[i := b])"
proof -
  have "set (masks[i := b]) \<subseteq> insert b (set masks)" by (rule set_update_subset_insert)
  with assms show ?thesis unfolding recognized_def by blast
qed

lemma reachable_recognized:
  assumes "reachable GetError touchpads"
  shows "recognized (map last_motion_event_buttons touchpads)"
  using assms
proof (induction rule: reachable.induct)
  case (reachable_Create kTouchpads)
  show ?case by (auto simp: recognized_def dest: Create_buttons)
next
  case (reachable_Reset touchpads)
  show ?case by (auto simp: recognized_def dest: Reset_buttons)
next
  case (reachable_Attach touchpads)
  then show ?case by (simp add: Attach_buttons)
next
  case (reachable_Detach touchpads)
  show ?case by (auto simp: recognized_def Detach_def dest: Reset_buttons)
next
  case (reachable_Touch touchpads touchpad_id x y pressure st touchpads')
  then show ?case by (simp add: Touch_buttons)
next
  case (reachable_ButtonState touchpads touchpad_id buttons st touchpads')
  from ButtonState_buttons [OF reachable_ButtonState.hyps(2)] show ?case
  proof
    assume "map last_motion_event_buttons touchpads' = map last_motion_event_buttons touchpads"
    with reachable_ButtonState.IH show ?thesis by simp
  next
    assume "buttons AND NOT AMOTION_EVENT_BUTTON_BACK = 0 \<and>
            map last_motion_event_buttons touchpads'
              = (map last_motion_event_buttons touchpads)[nat touchpad_id := buttons]"
    with reachable_ButtonState.IH show ?thesis by (simp add: recognized_update)
  qed
next
  case (reachable_Scroll touchpads touchpad_id x y st touchpads')
  then show ?case by (simp add: Scroll_buttons)
qed


lemma reachable_mask:
  assumes "reachable GetError touchpads" "touchpad \<in> set touchpads"
  shows "last_motion_event_buttons touchpad AND NOT AMOTION_EVENT_BUTTON_BACK = 0"
  using reachable_recognized [OF assms(1)] assms(2) by (simp add: recognized_def)

text \<open>
  Claim C5. In every state of a manager, for an index in range and a button mask with a
  bit other than the back button's, \<open>ButtonState\<close> returns the not-supported error and
  leaves the state, and with it every injector, as it was.
\<close>

theorem ButtonState_unrecognized_bit:
  assumes "reachable GetError touchpads"
    and "0 \<le> touchpad_id" "touchpad_id < int (length touchpads)"
    and "buttons AND NOT AMOTION_EVENT_BUTTON_BACK \<noteq> 0"
  shows "ButtonState GetError touchpads touchpad_id buttons = (ENOTSUP, touchpads)"
proof -
  have "touchpads ! nat touchpad_id \<in> set touchpads" using assms(2,3) by simp
  with assms(1)
  have "last_motion_event_buttons (touchpads ! nat touchpad_id) AND NOT AMOTION_EVENT_BUTTON_BACK = 0"
    by (rule reachable_mask)
  with assms(4) have "last_motion_event_buttons (touchpads ! nat touchpad_id) \<noteq> buttons" by auto
  then have "last_motion_event_buttons (touchpads ! nat touchpad_id) XOR buttons \<noteq> 0"
    by (simp add: xor_eq_0)
  with assms(2-4) show ?thesis by (simp add: ButtonState_def Let_def)
qed

theorem ButtonState_unrecognized_bit_witness:
  "reachable always_OK back_pad \<and> (9 :: 32 word) AND NOT AMOTION_EVENT_BUTTON_BACK \<noteq> 0 \<and>
   last_motion_event_buttons (back_pad ! 0) = AMOTION_EVENT_BUTTON_BACK \<and>
   ButtonState always_OK back_pad 0 9 = (ENOTSUP, back_pad)"
proof -
  have a: "(0::int) \<le> 0" "0 < int (length back_pad)" by (simp_all add: back_pad_def)
  have b: "(9 :: 32 word) AND NOT AMOTION_EVENT_BUTTON_BACK \<noteq> 0"
    by (simp add: AMOTION_EVENT_BUTTON_BACK_def)
  have c: "last_motion_event_buttons (back_pad ! 0) = AMOTION_EVENT_BUTTON_BACK"
    by (simp add: back_pad_def AMOTION_EVENT_BUTTON_BACK_def)
  from ButtonState_unrecognized_bit [OF reachable_back_pad a b] reachable_back_pad b c
  show ?thesis by simp
qed

text \<open>
  Claim C9. In every state of a manager, the stored button mask of every slot has no bit
  but the back button's. It is 0 after \<open>Create\<close>, \<open>Reset\<close> and \<open>Detach\<close>; so a mask with
  another bit always differs from the stored one, and the equal-mask shortcut of
  \<open>ButtonState\<close> does not apply to it.
\<close>

theorem last_button_mask_invariant:
  assumes "reachable GetError touchpads"
  shows "(\<forall>touchpad \<in> set touchpads.
            last_motion_event_buttons touchpad AND NOT AMOTION_EVENT_BUTTON_BACK = 0) \<and>
         (\<forall>touchpad \<in> set (Create n). last_motion_event_buttons touchpad = 0) \<and>
         (\<forall>touchpad \<in> set (Reset touchpads). last_motion_event_buttons touchpad = 0) \<and>
         (\<forall>touchpad \<in> set (snd (Detach touchpads)). last_motion_event_buttons touchpad = 0) \<and>
         (\<forall>touchpad_id buttons.
            0 \<le> touchpad_id \<and> touchpad_id < int (length touchpads) \<and>
            buttons AND NOT AMOTION_EVENT_BUTTON_BACK \<noteq> 0 \<longrightarrow>
            last_motion_event_buttons (touchpads ! nat touchpad_id) XOR buttons \<noteq> 0)"
proof (intro conjI ballI allI impI)
  fix touchpad
  assume "touchpad \<in> set touchpads"
  with assms show "last_motion_event_buttons touchpad AND NOT AMOTION_EVENT_BUTTON_BACK = 0"
    by (rule reachable_mask)
next
  fix touchpad
  assume "touchpad \<in> set (Create n)"
  then show "last_motion_event_buttons touchpad = 0" by (rule Create_buttons)
next
  fix touchpad
  assume "touchpad \<in> set (Reset touchpads)"
  then show "last_motion_event_buttons touchpad = 0" by (rule Reset_buttons)
next
  fix touchpad
  assume "touchpad \<in> set (snd (Detach touchpads))"
  then have "touchpad \<in> set (Reset touchpads)" by (simp add: Detach_def)
  then show "last_motion_event_buttons touchpad = 0" by (rule Reset_buttons)
next
  fix touchpad_id buttons
  assume h: "0 \<le> touchpad_id \<and> touchpad_id < int (length touchpads) \<and>
            buttons AND NOT AMOTION_EVENT_BUTTON_BACK \<noteq> 0"
  then have "nat touchpad_id < length touchpads" by auto
  then have "touchpads ! nat touchpad_id \<in> set touchpads" by (rule nth_mem)
  with assms
  have "last_motion_event_buttons (touchpads ! nat touchpad_id) AND NOT AMOTION_EVENT_BUTTON_BACK = 0"
    by (rule reachable_mask)
  with h have "last_motion_event_buttons (touchpads ! nat touchpad_id) \<noteq> buttons" by auto
  then show "last_motion_event_buttons (touchpads ! nat touchpad_id) XOR buttons \<noteq> 0"
    by (simp add: xor_eq_0)
qed

theorem last_button_mask_invariant_witness:
  "reachable always_OK back_pad \<and> back_pad ! 0 \<in> set back_pad \<and>
   last_motion_event_buttons (back_pad ! 0) = 8 \<and>
   last_motion_event_buttons (back_pad ! 0) AND NOT AMOTION_EVENT_BUTTON_BACK = 0 \<and>
   (9 :: 32 word) AND NOT AMOTION_EVENT_BUTTON_BACK \<noteq> 0 \<and>
   last_motion_event_buttons (back_pad ! 0) XOR 9 \<noteq> 0"
proof -
  have a: "(0::int) \<le> 0 \<and> 0 < int (length back_pad) \<and>
           (9 :: 32 word) AND NOT AMOTION_EVENT_BUTTON_BACK \<noteq> 0"
    by (simp add: back_pad_def AMOTION_EVENT_BUTTON_BACK_def)
  have b: "back_pad ! 0 \<in> set back_pad" by (simp add: back_pad_def)
  have c: "last_motion_event_buttons (back_pad ! 0) = 8" by (simp add: back_pad_def)
  note t = last_button_mask_invariant [OF reachable_back_pad, of 1]
  from t b have 1: "last_motion_event_buttons (back_pad ! 0) AND NOT AMOTION_EVENT_BUTTON_BACK = 0"
    by blast
  from t a have 2: "last_motion_event_buttons (back_pad ! nat 0) XOR 9 \<noteq> 0" by blast
  from 1 2 a b c reachable_back_pad show ?thesis by simp
qed


section \<open>Attach\<close>






section \<open>The diagnostic dump\<close>

lemma dump_loop_stop:
  assumes "i < length touchpads" "injector (touchpads ! i) = None"
    and "\<forall>j<i. injector (touchpads ! j) \<noteq> None"
  shows "dump_loop dump k touchpads result =
           dump_loop dump k (take i touchpads) result
             @ ''[virtual touchpad '' @ format_d (int (k + i)) @ '']\<newline>'' @ ''injector = none\<newline>''"
  using assms
proof (induction touchpads arbitrary: i k result)
  case Nil
  then show ?case by simp
next
  case (Cons touchpad rest)
  show ?case
  proof (cases i)
    case 0
    with Cons.prems(2) show ?thesis by (simp add: Let_def)
  next
    case (Suc i')
    from Cons.prems(3) Suc have "injector touchpad \<noteq> None" by auto
    then obtain dev where dev: "injector touchpad = Some dev" by auto
    have 1: "i' < length rest" using Cons.prems(1) Suc by simp
    have 2: "injector (rest ! i') = None" using Cons.prems(2) Suc by simp
    have 3: "\<forall>j<i'. injector (rest ! j) \<noteq> None"
    proof (intro allI impI)
      fix j assume "j < i'"
      then have "Suc j < i" using Suc by simp
      with Cons.prems(3) have "injector ((touchpad # rest) ! Suc j) \<noteq> None" by blast
      then show "injector (rest ! j) \<noteq> None" by simp
    qed
    note IH = Cons.IH [OF 1 2 3]
    show ?thesis using Suc dev by (simp add: Let_def IH)
  qed
qed

text \<open>
  Claim C10. When slot \<open>i\<close> is the first slot without an injector, the dump is the report
  of the slots before it, then the header of slot \<open>i\<close> and the line \<open>injector = none\<close>,
  and nothing more: whatever slots \<open>others\<close> follow slot \<open>i\<close>, the dump is the same.
\<close>

theorem dumpInternal_stops_at_detached_slot:
  assumes "i < length touchpads" "injector (touchpads ! i) = None"
    and "\<forall>j<i. injector (touchpads ! j) \<noteq> None"
  shows "dumpInternal dump touchpads result =
           dumpInternal dump (take i touchpads) result
             @ ''[virtual touchpad '' @ format_d (int i) @ '']\<newline>'' @ ''injector = none\<newline>''
         \<and> dumpInternal dump (take (Suc i) touchpads @ others) result
             = dumpInternal dump touchpads result"
proof -
  let ?t = "take (Suc i) touchpads @ others"
  have 1: "dumpInternal dump touchpads result =
           dumpInternal dump (take i touchpads) result
             @ ''[virtual touchpad '' @ format_d (int i) @ '']\<newline>'' @ ''injector = none\<newline>''"
    unfolding dumpInternal_def using dump_loop_stop [OF assms, of dump 0 result] by simp
  have n: "\<And>j. j \<le> i \<Longrightarrow> ?t ! j = touchpads ! j"
    using assms(1) by (simp add: nth_append)
  have a: "i < length ?t" using assms(1) by simp
  have b: "injector (?t ! i) = None" using assms(2) n [of i] by simp
  have c: "\<forall>j<i. injector (?t ! j) \<noteq> None" using assms(3) n by simp
  have d: "take i ?t = take i touchpads" using assms(1) by (simp add: min_def)
  have 2: "dumpInternal dump ?t result =
           dumpInternal dump (take i touchpads) result
             @ ''[virtual touchpad '' @ format_d (int i) @ '']\<newline>'' @ ''injector = none\<newline>''"
    unfolding dumpInternal_def using dump_loop_stop [OF a b c, of dump 0 result]
    unfolding d by simp
  from 1 2 show ?thesis by simp
qed

lemma format_d_0: "format_d 0 = ''0''"
  by (simp add: format_d_def digits.simps digit_char_def)

theorem dumpInternal_stops_at_detached_slot_witness:
  "(0::nat) < length (Create 2) \<and> injector (Create 2 ! 0) = None \<and>
   dumpInternal silent_dump (Create 2) [] = ''[virtual touchpad 0]\<newline>injector = none\<newline>'' \<and>
   dumpInternal silent_dump (take 1 (Create 2) @ attached_pad) []
     = dumpInternal silent_dump (Create 2) []"
proof -
  have c: "Create 2 = [\<lparr>owned_injector = False, injector = None, last_device_x = INT32_MIN,
                 last_device_y = INT32_MIN, touches = 0, last_motion_event_buttons = 0\<rparr>,
               \<lparr>owned_injector = False, injector = None, last_device_x = INT32_MIN,
                 last_device_y = INT32_MIN, touches = 0, last_motion_event_buttons = 0\<rparr>]"
    by (simp add: Create_def Reset_def Reset_touchpad_def new_Touchpad_def numeral_2_eq_2)
  have a: "(0::nat) < length (Create 2)" "injector (Create 2 ! 0) = None"
    "\<forall>j<(0::nat). injector (Create 2 ! j) \<noteq> None"
    unfolding c by simp_all
  have t: "take 0 (Create 2) = []" by simp
  from dumpInternal_stops_at_detached_slot [OF a, of silent_dump "[]" attached_pad] a(1,2)
  show ?thesis unfolding t by (simp add: dumpInternal_def format_d_0)
qed

end
